theory Spec2Isabelle
  imports Complex_Main
begin

section \<open>Numbers and exceptions\<close>

text \<open>
  The lookahead of \<^verbatim>\<open>src/Lookahead/lookahead.py\<close> computes on numpy arrays of floats.
  An array entry is modelled as a number of \<open>npfloat\<close>: a finite real, one of the two
  infinities, or NaN. Finite arithmetic is exact (rounding and overflow are not modelled,
  nor is the sign of zero); division by zero, the infinities and NaN follow IEEE 754 as
  numpy applies it: \<open>0/0\<close> is NaN, \<open>x/0\<close> is an infinity, NaN propagates and NaN compares
  unequal to itself.
\<close>

datatype npfloat = Fin real | PInf | NInf | NaN

fun fneg :: "npfloat \<Rightarrow> npfloat" where
  "fneg (Fin a) = Fin (- a)"
| "fneg PInf = NInf"
| "fneg NInf = PInf"
| "fneg NaN = NaN"

fun fadd :: "npfloat \<Rightarrow> npfloat \<Rightarrow> npfloat" where
  "fadd (Fin a) (Fin b) = Fin (a + b)"
| "fadd NaN _ = NaN"
| "fadd _ NaN = NaN"
| "fadd PInf NInf = NaN"
| "fadd NInf PInf = NaN"
| "fadd PInf _ = PInf"
| "fadd _ PInf = PInf"
| "fadd NInf _ = NInf"
| "fadd _ NInf = NInf"

definition fsub :: "npfloat \<Rightarrow> npfloat \<Rightarrow> npfloat" where
  "fsub a b = fadd a (fneg b)"

text \<open>The sign of a number that is not NaN: \<open>-1\<close>, \<open>0\<close> or \<open>1\<close>.\<close>

fun fsign :: "npfloat \<Rightarrow> int" where
  "fsign (Fin a) = (if a < 0 then - 1 else if a = 0 then 0 else 1)"
| "fsign PInf = 1"
| "fsign NInf = - 1"
| "fsign NaN = 0"

definition inf_of_sign :: "int \<Rightarrow> npfloat" where
  "inf_of_sign s = (if s = 0 then NaN else if s < 0 then NInf else PInf)"

fun fmul :: "npfloat \<Rightarrow> npfloat \<Rightarrow> npfloat" where
  "fmul (Fin a) (Fin b) = Fin (a * b)"
| "fmul NaN _ = NaN"
| "fmul _ NaN = NaN"
| "fmul a b = inf_of_sign (fsign a * fsign b)"

fun fdiv :: "npfloat \<Rightarrow> npfloat \<Rightarrow> npfloat" where
  "fdiv (Fin a) (Fin b) = (if b = 0 then inf_of_sign (fsign (Fin a)) else Fin (a / b))"
| "fdiv NaN _ = NaN"
| "fdiv _ NaN = NaN"
| "fdiv (Fin a) _ = Fin 0"
| "fdiv a (Fin b) = inf_of_sign (fsign a * (if b < 0 then - 1 else 1))"
| "fdiv _ _ = NaN"

fun fle :: "npfloat \<Rightarrow> npfloat \<Rightarrow> bool" where
  "fle (Fin a) (Fin b) = (a \<le> b)"
| "fle NaN _ = False"
| "fle _ NaN = False"
| "fle NInf _ = True"
| "fle _ PInf = True"
| "fle _ _ = False"

text \<open>numpy's \<^verbatim>\<open>a != b\<close> on floats: true as soon as one side is NaN.\<close>

definition fne :: "npfloat \<Rightarrow> npfloat \<Rightarrow> bool" where
  "fne a b = (a = NaN \<or> b = NaN \<or> a \<noteq> b)"

text \<open>\<^verbatim>\<open>np.maximum\<close> and \<^verbatim>\<open>np.minimum\<close> propagate NaN.\<close>

definition fmaximum :: "npfloat \<Rightarrow> npfloat \<Rightarrow> npfloat" where
  "fmaximum a b = (if a = NaN \<or> b = NaN then NaN else if fle a b then b else a)"

definition fminimum :: "npfloat \<Rightarrow> npfloat \<Rightarrow> npfloat" where
  "fminimum a b = (if a = NaN \<or> b = NaN then NaN else if fle a b then a else b)"

text \<open>\<^verbatim>\<open>np.clip(x, lo, hi)\<close> is \<^verbatim>\<open>np.minimum(np.maximum(x, lo), hi)\<close>.\<close>

definition fclip :: "npfloat \<Rightarrow> npfloat \<Rightarrow> npfloat \<Rightarrow> npfloat" where
  "fclip lo hi x = fminimum (fmaximum x lo) hi"

text \<open>The exceptions the modelled code can raise.\<close>

datatype pyerror =
  IndexError | KeyError | ValueError | AssertionError | AttributeError | UnboundLocalError

definition bind_err :: "pyerror + 'a \<Rightarrow> ('a \<Rightarrow> pyerror + 'b) \<Rightarrow> pyerror + 'b" where
  "bind_err m f = (case m of Inl e \<Rightarrow> Inl e | Inr x \<Rightarrow> f x)"

section \<open>numpy arrays\<close>

text \<open>
  An array is its shape and its entries in row-major (C) order. Every operation below
  returns its result in that layout, so a transposed or sliced array is materialised;
  where the source writes through a view, the model writes the view back.
\<close>

record 'a ndarray =
  shape :: "nat list"
  data :: "'a list"

definition wf_array :: "'a ndarray \<Rightarrow> bool" where
  "wf_array t = (length (data t) = prod_list (shape t))"

fun ravel :: "nat list \<Rightarrow> nat list \<Rightarrow> nat" where
  "ravel (n # ns) (i # is) = i * prod_list ns + ravel ns is"
| "ravel _ _ = 0"

fun unravel :: "nat list \<Rightarrow> nat \<Rightarrow> nat list" where
  "unravel [] k = []"
| "unravel (n # ns) k = (k div prod_list ns) # unravel ns (k mod prod_list ns)"

definition valid_idx :: "nat list \<Rightarrow> nat list \<Rightarrow> bool" where
  "valid_idx shp idx = list_all2 (\<lambda>i n. i < n) idx shp"

definition item :: "'a ndarray \<Rightarrow> nat list \<Rightarrow> 'a" where
  "item t idx = data t ! ravel (shape t) idx"

text \<open>An array built from its shape and a function of the multi-index.\<close>

definition tabulate :: "nat list \<Rightarrow> (nat list \<Rightarrow> 'a) \<Rightarrow> 'a ndarray" where
  "tabulate shp f = \<lparr>shape = shp, data = map (\<lambda>k. f (unravel shp k)) [0..<prod_list shp]\<rparr>"

definition full :: "nat list \<Rightarrow> 'a \<Rightarrow> 'a ndarray" where
  "full shp c = \<lparr>shape = shp, data = replicate (prod_list shp) c\<rparr>"

definition scalar :: "'a \<Rightarrow> 'a ndarray" where
  "scalar c = \<lparr>shape = [], data = [c]\<rparr>"

definition ones_like :: "npfloat ndarray \<Rightarrow> npfloat ndarray" where
  "ones_like t = full (shape t) (Fin 1)"

definition map_array :: "('a \<Rightarrow> 'b) \<Rightarrow> 'a ndarray \<Rightarrow> 'b ndarray" where
  "map_array f t = \<lparr>shape = shape t, data = map f (data t)\<rparr>"

subsection \<open>Broadcasting\<close>

text \<open>
  numpy aligns shapes at their last axis; an axis of length 1 (or a missing leading
  axis) is stretched. \<open>broadcast_to\<close> fails with ValueError when the shapes do not fit.
\<close>

definition bc_ok :: "nat list \<Rightarrow> nat list \<Rightarrow> bool" where
  "bc_ok src dst = (length src \<le> length dst \<and>
     list_all2 (\<lambda>m n. m = n \<or> m = 1) src (drop (length dst - length src) dst))"

definition bc_src :: "nat list \<Rightarrow> nat list \<Rightarrow> nat list" where
  "bc_src src idx = map2 (\<lambda>m i. if m = 1 then 0 else i) src (drop (length idx - length src) idx)"

definition broadcast_to :: "'a ndarray \<Rightarrow> nat list \<Rightarrow> pyerror + 'a ndarray" where
  "broadcast_to t shp =
     (if bc_ok (shape t) shp then Inr (tabulate shp (\<lambda>idx. item t (bc_src (shape t) idx)))
      else Inl ValueError)"

fun bc_dims :: "nat list \<Rightarrow> nat list \<Rightarrow> nat list option" where
  "bc_dims [] [] = Some []"
| "bc_dims (m # ms) (n # ns) =
     (case bc_dims ms ns of None \<Rightarrow> None
      | Some r \<Rightarrow> if m = n \<or> n = 1 then Some (m # r) else if m = 1 then Some (n # r) else None)"
| "bc_dims _ _ = None"

definition broadcast_shapes :: "nat list \<Rightarrow> nat list \<Rightarrow> nat list option" where
  "broadcast_shapes a b =
     (let r = max (length a) (length b)
      in bc_dims (replicate (r - length a) 1 @ a) (replicate (r - length b) 1 @ b))"

text \<open>\<^verbatim>\<open>a op b\<close>: a new array of the broadcast shape.\<close>

definition np_binop :: "('a \<Rightarrow> 'a \<Rightarrow> 'a) \<Rightarrow> 'a ndarray \<Rightarrow> 'a ndarray \<Rightarrow> pyerror + 'a ndarray" where
  "np_binop f a b =
     (case broadcast_shapes (shape a) (shape b) of
        None \<Rightarrow> Inl ValueError
      | Some shp \<Rightarrow>
          bind_err (broadcast_to a shp) (\<lambda>a'.
          bind_err (broadcast_to b shp) (\<lambda>b'.
          Inr \<lparr>shape = shp, data = map2 f (data a') (data b')\<rparr>)))"

text \<open>\<^verbatim>\<open>a op= b\<close>: the result keeps the shape of \<open>a\<close>, so \<open>b\<close> must broadcast to it.\<close>

definition np_iop :: "('a \<Rightarrow> 'a \<Rightarrow> 'a) \<Rightarrow> 'a ndarray \<Rightarrow> 'a ndarray \<Rightarrow> pyerror + 'a ndarray" where
  "np_iop f a b =
     bind_err (broadcast_to b (shape a)) (\<lambda>b'.
     Inr \<lparr>shape = shape a, data = map2 f (data a) (data b')\<rparr>)"

subsection \<open>Basic indexing\<close>

text \<open>
  An index expression \<^verbatim>\<open>t[i0, i1, ...]\<close> is a list with one entry per leading axis:
  an integer (which removes the axis; a negative one counts from the end; out of range
  raises IndexError) or a slice \<^verbatim>\<open>a:b\<close> (whose bounds are clamped to the axis, as Python
  does). Axes without an entry are taken whole.
\<close>

datatype ix = Idx int | Slice "int option" "int option"

definition All :: ix where
  "All = Slice None None"

definition idx_ok :: "nat \<Rightarrow> int \<Rightarrow> bool" where
  "idx_ok n i = (- int n \<le> i \<and> i < int n)"

definition norm_idx :: "nat \<Rightarrow> int \<Rightarrow> nat" where
  "norm_idx n i = nat (if i < 0 then i + int n else i)"

definition clamp_bound :: "nat \<Rightarrow> int \<Rightarrow> nat" where
  "clamp_bound n i =
     (let j = (if i < 0 then i + int n else i)
      in if j < 0 then 0 else if int n < j then n else nat j)"

definition slice_start :: "nat \<Rightarrow> int option \<Rightarrow> nat" where
  "slice_start n a = (case a of None \<Rightarrow> 0 | Some i \<Rightarrow> clamp_bound n i)"

definition slice_stop :: "nat \<Rightarrow> int option \<Rightarrow> nat" where
  "slice_stop n b = (case b of None \<Rightarrow> n | Some j \<Rightarrow> clamp_bound n j)"

definition slice_len :: "nat \<Rightarrow> int option \<Rightarrow> int option \<Rightarrow> nat" where
  "slice_len n a b = slice_stop n b - slice_start n a"

text \<open>The shape of a selection, the source index of each of its entries, and back.\<close>

fun sel_shape :: "nat list \<Rightarrow> ix list \<Rightarrow> pyerror + nat list" where
  "sel_shape shp [] = Inr shp"
| "sel_shape [] (i # is) = Inl IndexError"
| "sel_shape (n # ns) (Idx i # is) = (if idx_ok n i then sel_shape ns is else Inl IndexError)"
| "sel_shape (n # ns) (Slice a b # is) =
     bind_err (sel_shape ns is) (\<lambda>r. Inr (slice_len n a b # r))"

fun sel_src :: "nat list \<Rightarrow> ix list \<Rightarrow> nat list \<Rightarrow> nat list" where
  "sel_src (n # ns) (Idx i # is) idx = norm_idx n i # sel_src ns is idx"
| "sel_src (n # ns) (Slice a b # is) (j # idx) = (slice_start n a + j) # sel_src ns is idx"
| "sel_src shp is idx = idx"

fun in_sel :: "nat list \<Rightarrow> ix list \<Rightarrow> nat list \<Rightarrow> bool" where
  "in_sel (n # ns) (Idx i # is) (j # idx) = (j = norm_idx n i \<and> in_sel ns is idx)"
| "in_sel (n # ns) (Slice a b # is) (j # idx) =
     (slice_start n a \<le> j \<and> j < slice_start n a + slice_len n a b \<and> in_sel ns is idx)"
| "in_sel shp is idx = True"

fun sel_dst :: "nat list \<Rightarrow> ix list \<Rightarrow> nat list \<Rightarrow> nat list" where
  "sel_dst (n # ns) (Idx i # is) (j # idx) = sel_dst ns is idx"
| "sel_dst (n # ns) (Slice a b # is) (j # idx) = (j - slice_start n a) # sel_dst ns is idx"
| "sel_dst shp is idx = idx"

text \<open>\<^verbatim>\<open>t[ixs]\<close> read.\<close>

definition getitem :: "'a ndarray \<Rightarrow> ix list \<Rightarrow> pyerror + 'a ndarray" where
  "getitem t ixs =
     bind_err (sel_shape (shape t) ixs) (\<lambda>shp.
     Inr (tabulate shp (\<lambda>idx. item t (sel_src (shape t) ixs idx))))"

text \<open>
  \<^verbatim>\<open>t[ixs] op= v\<close>: the operation works in place on the selected view, so \<open>v\<close> must
  broadcast to the shape of the selection; the other entries of \<open>t\<close> stay.
\<close>

definition upditem :: "('a \<Rightarrow> 'a \<Rightarrow> 'a) \<Rightarrow> 'a ndarray \<Rightarrow> ix list \<Rightarrow> 'a ndarray \<Rightarrow> pyerror + 'a ndarray" where
  "upditem f t ixs v =
     bind_err (sel_shape (shape t) ixs) (\<lambda>shp.
     bind_err (broadcast_to v shp) (\<lambda>v'.
     Inr (tabulate (shape t) (\<lambda>idx.
       if in_sel (shape t) ixs idx then f (item t idx) (item v' (sel_dst (shape t) ixs idx))
       else item t idx))))"

text \<open>
  \<^verbatim>\<open>t[ixs] = v\<close>: numpy's assignment is more lenient than its in-place operations. While
  \<open>v\<close> has more axes than the selection and its first axis has length 1, that axis is
  dropped; what is left is broadcast to the shape of the selection.
\<close>

fun strip_leading_ones :: "nat \<Rightarrow> nat list \<Rightarrow> nat list" where
  "strip_leading_ones r [] = []"
| "strip_leading_ones r (n # ns) =
     (if r < length (n # ns) \<and> n = 1 then strip_leading_ones r ns else n # ns)"

definition setitem :: "'a ndarray \<Rightarrow> ix list \<Rightarrow> 'a ndarray \<Rightarrow> pyerror + 'a ndarray" where
  "setitem t ixs v =
     bind_err (sel_shape (shape t) ixs) (\<lambda>shp.
     upditem (\<lambda>old new. new) t ixs
       (v\<lparr>shape := strip_leading_ones (length shp) (shape v)\<rparr>))"

subsection \<open>Reshape, transpose, sum\<close>

text \<open>
  \<^verbatim>\<open>t.reshape(dims)\<close>: at most one dimension may be \<open>-1\<close> and is then inferred; the
  number of entries must not change (ValueError otherwise). The entries keep their
  row-major order.
\<close>

definition reshape_dims :: "nat \<Rightarrow> int list \<Rightarrow> pyerror + nat list" where
  "reshape_dims n dims =
     (if list_ex (\<lambda>d. d < - 1) dims then Inl ValueError
      else if length (filter (\<lambda>d. d = - 1) dims) > 1 then Inl ValueError
      else if List.member dims (- 1) then
        (let known = nat (prod_list (filter (\<lambda>d. d \<noteq> - 1) dims))
         in if known = 0 \<or> n mod known \<noteq> 0 then Inl ValueError
            else Inr (map (\<lambda>d. if d = - 1 then n div known else nat d) dims))
      else if nat (prod_list dims) = n then Inr (map nat dims)
      else Inl ValueError)"

definition reshape :: "'a ndarray \<Rightarrow> int list \<Rightarrow> pyerror + 'a ndarray" where
  "reshape t dims =
     bind_err (reshape_dims (prod_list (shape t)) dims) (\<lambda>shp.
     Inr \<lparr>shape = shp, data = data t\<rparr>)"

definition reshape_to :: "'a ndarray \<Rightarrow> nat list \<Rightarrow> pyerror + 'a ndarray" where
  "reshape_to t shp = reshape t (map int shp)"

text \<open>\<^verbatim>\<open>np.transpose(t, perm)\<close>: axis \<open>k\<close> of the result is axis \<open>perm ! k\<close> of \<open>t\<close>.\<close>

definition is_perm :: "nat list \<Rightarrow> nat \<Rightarrow> bool" where
  "is_perm perm r = (length perm = r \<and> distinct perm \<and> list_all (\<lambda>p. p < r) perm)"

fun index_of :: "nat list \<Rightarrow> nat \<Rightarrow> nat" where
  "index_of [] j = 0"
| "index_of (p # ps) j = (if p = j then 0 else Suc (index_of ps j))"

definition transpose_src :: "nat list \<Rightarrow> nat list \<Rightarrow> nat list" where
  "transpose_src perm idx = map (\<lambda>j. idx ! index_of perm j) [0..<length perm]"

definition transpose_nd :: "'a ndarray \<Rightarrow> nat list \<Rightarrow> pyerror + 'a ndarray" where
  "transpose_nd t perm =
     (if is_perm perm (length (shape t))
      then Inr (tabulate (map (\<lambda>p. shape t ! p) perm) (\<lambda>idx. item t (transpose_src perm idx)))
      else Inl ValueError)"

text \<open>\<^verbatim>\<open>np.sum(t, axis=ax, keepdims=True)\<close>.\<close>

definition fsum :: "npfloat list \<Rightarrow> npfloat" where
  "fsum xs = foldl fadd (Fin 0) xs"

definition np_sum_keepdims :: "npfloat ndarray \<Rightarrow> nat \<Rightarrow> pyerror + npfloat ndarray" where
  "np_sum_keepdims t ax =
     (if ax < length (shape t)
      then Inr (tabulate ((shape t)[ax := 1])
             (\<lambda>idx. fsum (map (\<lambda>i. item t (idx[ax := i])) [0..<shape t ! ax])))
      else Inl ValueError)"

text \<open>\<^verbatim>\<open>np.clip(t, lo, hi)\<close> and \<^verbatim>\<open>t[t != t] = c\<close>.\<close>

definition np_clip :: "npfloat ndarray \<Rightarrow> npfloat \<Rightarrow> npfloat \<Rightarrow> npfloat ndarray" where
  "np_clip t lo hi = map_array (fclip lo hi) t"

definition set_where_nan :: "npfloat ndarray \<Rightarrow> npfloat \<Rightarrow> npfloat ndarray" where
  "set_where_nan t c = map_array (\<lambda>x. if fne x x then c else x) t"

section \<open>The lookahead\<close>

text \<open>
  The state of a \<^verbatim>\<open>Lookahead\<close> object. The tree builder, the settings modules and the
  collaborators (terminal equity, next-street value boxes, the CFR-D gadget) are not part
  of the source file: what the builder stores on the object is a field of the state, the
  settings are a record, and the collaborators are functions handed to the methods.
  The methods of the class keep their names, without the leading underscore.
\<close>

record settings =
  cfr_iters :: int
  cfr_skip_iters :: int
  max_number :: npfloat
  players_count :: int
  hand_count :: int
  streets_count :: int
  nl :: bool
  players_P1 :: int
  players_P2 :: int

record layer =
  ranges_data :: "npfloat ndarray"
  current_strategy_data :: "npfloat ndarray"
  regrets_data :: "npfloat ndarray"
  positive_regrets_data :: "npfloat ndarray"
  regrets_sum :: "npfloat ndarray"
  cfvs_data :: "npfloat ndarray"
  average_strategies_data :: "npfloat ndarray"
  average_cfvs_data :: "npfloat ndarray"
  empty_action_mask :: "npfloat ndarray"
  placeholder_data :: "npfloat ndarray"
  swap_data :: "npfloat ndarray"
  inner_nodes :: "npfloat ndarray"
  current_regrets_data :: "npfloat ndarray"
  pot_size :: "npfloat ndarray"
  acting_player :: int
  bets_count :: int
  actions_count :: int
  terminal_actions_count :: int
  nonallinbets_count :: int
  term_call_indices :: "int \<times> int"
  term_fold_indices :: "int \<times> int"
  indices :: "int \<times> int"

text \<open>
  The history of a run: every method of the main loop records its entry, and
  \<open>set_opponent_starting_range\<close> records each invocation of the gadget with its
  arguments. The history is not read by any method.
\<close>

datatype event =
    Enter_set_opponent_starting_range int
  | Call_compute_opponent_range "npfloat ndarray" int
  | Enter_compute_current_strategies
  | Enter_compute_ranges
  | Enter_compute_update_average_strategies int
  | Enter_compute_terminal_equities
  | Enter_compute_cfvs
  | Enter_compute_regrets
  | Enter_compute_cumulate_average_cfvs int
  | Enter_compute_normalize_average_strategies
  | Enter_compute_normalize_average_cfvs

record 'g lookahead =
  layers :: "layer list"
  depth :: nat
  batch_size :: int
  regret_epsilon :: npfloat
  reconstruction_opponent_cfvs :: "npfloat ndarray option"
  reconstruction_gadget :: "'g option"
  tree_street :: int
  tree_current_player :: int
  tree_board :: "int list"
  first_call_terminal :: bool
  first_call_transition :: bool
  ranges_data_call :: "npfloat ndarray"
  ranges_data_fold :: "npfloat ndarray"
  cfvs_data_call :: "npfloat ndarray"
  cfvs_data_fold :: "npfloat ndarray"
  num_pot_sizes :: int
  next_street_boxes_inputs :: "npfloat ndarray"
  next_street_boxes_outputs :: "npfloat ndarray"
  next_board_idx :: int
  action_to_index :: "int \<rightharpoonup> int option"
  next_round_pot_sizes :: "npfloat ndarray"
  history :: "event list"

text \<open>
  The collaborators. The gadget has a state of its own (type \<open>'g\<close>), returned updated
  by each call. The evaluators write their result into the array they are handed: they
  are functions from the inputs and the old content to the new content.
\<close>

record 'g collaborators =
  new_gadget :: "int list \<Rightarrow> npfloat ndarray \<Rightarrow> npfloat ndarray \<Rightarrow> 'g"
  compute_opponent_range :: "'g \<Rightarrow> npfloat ndarray \<Rightarrow> int \<Rightarrow> pyerror + npfloat ndarray \<times> 'g"
  call_value :: "npfloat ndarray \<Rightarrow> npfloat ndarray \<Rightarrow> pyerror + npfloat ndarray"
  fold_value :: "npfloat ndarray \<Rightarrow> npfloat ndarray \<Rightarrow> pyerror + npfloat ndarray"
  get_value_aux :: "npfloat ndarray \<Rightarrow> npfloat ndarray \<Rightarrow> int \<Rightarrow> pyerror + npfloat ndarray"
  get_value :: "npfloat ndarray \<Rightarrow> npfloat ndarray \<Rightarrow> int \<Rightarrow> pyerror + npfloat ndarray"
  get_value_on_board :: "int list \<Rightarrow> npfloat ndarray \<Rightarrow> pyerror + npfloat ndarray"

text \<open>\<^verbatim>\<open>self.layers[d]\<close>, a \<^verbatim>\<open>for\<close> loop whose body may raise, and the history.\<close>

definition get_layer :: "layer list \<Rightarrow> nat \<Rightarrow> pyerror + layer" where
  "get_layer ls d = (if d < length ls then Inr (ls ! d) else Inl IndexError)"

fun for_each :: "'i list \<Rightarrow> ('i \<Rightarrow> 's \<Rightarrow> pyerror + 's) \<Rightarrow> 's \<Rightarrow> pyerror + 's" where
  "for_each [] body s = Inr s"
| "for_each (d # ds) body s = bind_err (body d s) (for_each ds body)"

definition enter :: "event \<Rightarrow> 'g lookahead \<Rightarrow> 'g lookahead" where
  "enter ev s = s\<lparr>history := history s @ [ev]\<rparr>"

definition with_layers ::
  "(layer list \<Rightarrow> pyerror + layer list) \<Rightarrow> 'g lookahead \<Rightarrow> pyerror + 'g lookahead" where
  "with_layers f s = bind_err (f (layers s)) (\<lambda>ls. Inr (s\<lparr>layers := ls\<rparr>))"

text \<open>\<^verbatim>\<open>t[:, :, :, :, p, :]\<close>\<close>

definition player_ix :: "int \<Rightarrow> ix list" where
  "player_ix p = [All, All, All, All, Idx p, All]"

subsection \<open>Regret matching\<close>

definition current_strategies_layer :: "settings \<Rightarrow> npfloat \<Rightarrow> layer \<Rightarrow> pyerror + layer" where
  "current_strategies_layer st eps l =
     (let pr = np_clip (regrets_data l) eps (max_number st)
      in bind_err (np_iop fmul pr (empty_action_mask l)) (\<lambda>pr.
         bind_err (np_sum_keepdims pr 0) (\<lambda>rs.
         bind_err (np_binop fmul rs (ones_like (current_strategy_data l))) (\<lambda>den.
         bind_err (np_binop fdiv pr den) (\<lambda>cs.
         Inr (l\<lparr>positive_regrets_data := pr, regrets_sum := rs,
                current_strategy_data := cs\<rparr>))))))"

definition current_strategies_step :: "settings \<Rightarrow> npfloat \<Rightarrow> nat \<Rightarrow> layer list \<Rightarrow> pyerror + layer list" where
  "current_strategies_step st eps d ls =
     bind_err (get_layer ls d) (\<lambda>l.
     bind_err (current_strategies_layer st eps l) (\<lambda>l'.
     Inr (ls[d := l'])))"

definition compute_current_strategies :: "settings \<Rightarrow> 'g lookahead \<Rightarrow> pyerror + 'g lookahead" where
  "compute_current_strategies st s =
     with_layers (for_each [1..<depth s] (current_strategies_step st (regret_epsilon s)))
       (enter Enter_compute_current_strategies s)"

subsection \<open>Range propagation\<close>

definition ranges_step :: "settings \<Rightarrow> int \<Rightarrow> nat \<Rightarrow> layer list \<Rightarrow> pyerror + layer list" where
  "ranges_step st bs d ls =
     bind_err (get_layer ls d) (\<lambda>cur.
     bind_err (get_layer ls (d + 1)) (\<lambda>nxt.
     bind_err (if d > 0
               then bind_err (get_layer ls (d - 1)) (\<lambda>p.
                    Inr (terminal_actions_count p, bets_count p))
               else Inr (0, 1)) (\<lambda>(prev_layer_terminal_actions_count, prev_layer_bets_count).
     bind_err (if d > 1
               then bind_err (get_layer ls (d - 2)) (\<lambda>g. Inr (nonallinbets_count g))
               else Inr 1) (\<lambda>gp_layer_nonallin_bets_count.
     bind_err (getitem (ranges_data cur)
                 [Slice (Some prev_layer_terminal_actions_count) None,
                  Slice None (Some gp_layer_nonallin_bets_count), All, All, All, All]) (\<lambda>sl.
     bind_err (transpose_nd sl [0, 2, 1, 3, 4, 5]) (\<lambda>inner.
     bind_err (reshape inner [1, prev_layer_bets_count, - 1, bs, players_count st, hand_count st])
       (\<lambda>super_view.
     bind_err (np_binop fmul super_view (ones_like (ranges_data nxt))) (\<lambda>super_view.
     bind_err (upditem fmul super_view (player_ix (acting_player cur)) (current_strategy_data nxt))
       (\<lambda>r.
     Inr (ls[d := cur\<lparr>inner_nodes := inner\<rparr>, d + 1 := nxt\<lparr>ranges_data := r\<rparr>]))))))))))"

definition compute_ranges :: "settings \<Rightarrow> 'g lookahead \<Rightarrow> pyerror + 'g lookahead" where
  "compute_ranges st s =
     with_layers (for_each [0..<depth s - 1] (ranges_step st (batch_size s)))
       (enter Enter_compute_ranges s)"

subsection \<open>Averaging\<close>

definition update_average_strategies_layers :: "layer list \<Rightarrow> pyerror + layer list" where
  "update_average_strategies_layers ls =
     bind_err (get_layer ls 1) (\<lambda>l.
     bind_err (np_iop fadd (average_strategies_data l) (current_strategy_data l)) (\<lambda>a.
     Inr (ls[1 := l\<lparr>average_strategies_data := a\<rparr>])))"

definition compute_update_average_strategies ::
  "settings \<Rightarrow> int \<Rightarrow> 'g lookahead \<Rightarrow> pyerror + 'g lookahead" where
  "compute_update_average_strategies st iter s =
     (let s = enter (Enter_compute_update_average_strategies iter) s
      in if iter > cfr_skip_iters st then with_layers update_average_strategies_layers s
         else Inr s)"

definition cumulate_average_cfvs_step :: "nat \<Rightarrow> layer list \<Rightarrow> pyerror + layer list" where
  "cumulate_average_cfvs_step d ls =
     bind_err (get_layer ls d) (\<lambda>l.
     bind_err (np_iop fadd (average_cfvs_data l) (cfvs_data l)) (\<lambda>a.
     Inr (ls[d := l\<lparr>average_cfvs_data := a\<rparr>])))"

definition compute_cumulate_average_cfvs ::
  "settings \<Rightarrow> int \<Rightarrow> 'g lookahead \<Rightarrow> pyerror + 'g lookahead" where
  "compute_cumulate_average_cfvs st iter s =
     (let s = enter (Enter_compute_cumulate_average_cfvs iter) s
      in if iter > cfr_skip_iters st then with_layers (for_each [0, 1] cumulate_average_cfvs_step) s
         else Inr s)"

text \<open>
  \<^verbatim>\<open>player_avg_strategy\<close> is an alias of \<^verbatim>\<open>layers[1].average_strategies_data\<close>, which is
  divided in place, so the two assignments through the alias change the layer's array;
  \<^verbatim>\<open>player_avg_strategy[0]\<close> is a view of its first row.
\<close>

definition normalize_average_strategies_layer :: "layer \<Rightarrow> pyerror + layer" where
  "normalize_average_strategies_layer l =
     bind_err (np_sum_keepdims (average_strategies_data l) 0) (\<lambda>rs.
     bind_err (np_binop fmul rs (ones_like (average_strategies_data l))) (\<lambda>den.
     bind_err (np_iop fdiv (average_strategies_data l) den) (\<lambda>a.
     bind_err (getitem a [Idx 0]) (\<lambda>row.
     bind_err (setitem a [Idx 0] (set_where_nan row (Fin 1))) (\<lambda>a.
     Inr (l\<lparr>regrets_sum := rs, average_strategies_data := set_where_nan a (Fin 0)\<rparr>))))))"

definition compute_normalize_average_strategies :: "'g lookahead \<Rightarrow> pyerror + 'g lookahead" where
  "compute_normalize_average_strategies s =
     with_layers (\<lambda>ls.
       bind_err (get_layer ls 1) (\<lambda>l.
       bind_err (normalize_average_strategies_layer l) (\<lambda>l'.
       Inr (ls[1 := l']))))
     (enter Enter_compute_normalize_average_strategies s)"

definition compute_normalize_average_cfvs :: "settings \<Rightarrow> 'g lookahead \<Rightarrow> pyerror + 'g lookahead" where
  "compute_normalize_average_cfvs st s =
     with_layers (\<lambda>ls.
       bind_err (get_layer ls 0) (\<lambda>l.
       bind_err (np_iop fdiv (average_cfvs_data l)
                   (scalar (Fin (of_int (cfr_iters st - cfr_skip_iters st))))) (\<lambda>a.
       Inr (ls[0 := l\<lparr>average_cfvs_data := a\<rparr>]))))
     (enter Enter_compute_normalize_average_cfvs s)"

subsection \<open>Terminal and depth-limit values\<close>

text \<open>\<^verbatim>\<open>t.shape[k]\<close> and a slice \<^verbatim>\<open>t[a:b]\<close> on the first axis.\<close>

definition shape_at :: "'a ndarray \<Rightarrow> nat \<Rightarrow> pyerror + nat" where
  "shape_at t k = (if k < length (shape t) then Inr (shape t ! k) else Inl IndexError)"

definition range_ix :: "int \<times> int \<Rightarrow> ix list" where
  "range_ix r = [Slice (Some (fst r)) (Some (snd r))]"

text \<open>
  A collaborator writes into the array it is handed, a reshaped view of a buffer of the
  lookahead: the buffer gets the new content and keeps its shape.
\<close>

definition write_back :: "npfloat ndarray \<Rightarrow> npfloat ndarray \<Rightarrow> pyerror + npfloat ndarray" where
  "write_back buffer res = reshape_to res (shape buffer)"

definition gather_terminal_step ::
  "settings \<Rightarrow> nat \<Rightarrow> 'g lookahead \<Rightarrow> pyerror + 'g lookahead" where
  "gather_terminal_step st d s =
     bind_err (get_layer (layers s) d) (\<lambda>l.
     bind_err (if d > 1 \<or> first_call_terminal s then
                 (if tree_street s \<noteq> streets_count st then
                    bind_err (getitem (ranges_data l) [Idx 1, Idx (- 1)]) (\<lambda>v.
                    setitem (ranges_data_call s) (range_ix (term_call_indices l)) v)
                  else
                    bind_err (getitem (ranges_data_call s) (range_ix (term_call_indices l))) (\<lambda>tgt.
                    bind_err (getitem (ranges_data l) [Idx 1]) (\<lambda>v.
                    bind_err (reshape_to v (shape tgt)) (\<lambda>v.
                    setitem (ranges_data_call s) (range_ix (term_call_indices l)) v))))
               else Inr (ranges_data_call s)) (\<lambda>rc.
     bind_err (getitem (ranges_data_fold s) (range_ix (term_fold_indices l))) (\<lambda>tgt.
     bind_err (getitem (ranges_data l) [Idx 0]) (\<lambda>v.
     bind_err (reshape_to v (shape tgt)) (\<lambda>v.
     bind_err (setitem (ranges_data_fold s) (range_ix (term_fold_indices l)) v) (\<lambda>rf.
     Inr (s\<lparr>ranges_data_call := rc, ranges_data_fold := rf\<rparr>)))))))"

definition scatter_terminal_step ::
  "settings \<Rightarrow> npfloat ndarray \<Rightarrow> npfloat ndarray \<Rightarrow> bool \<Rightarrow> int \<Rightarrow> nat \<Rightarrow> layer list
     \<Rightarrow> pyerror + layer list" where
  "scatter_terminal_step st cfvs_call cfvs_fold fct street d ls =
     bind_err (get_layer ls d) (\<lambda>l.
     bind_err (if street \<noteq> streets_count st then
                 (if nl st \<and> (d > 1 \<or> fct) then
                    bind_err (getitem cfvs_call (range_ix (term_call_indices l))) (\<lambda>v.
                    setitem (cfvs_data l) [Idx 1, Idx (- 1)] v)
                  else Inr (cfvs_data l))
               else
                 (if d > 1 \<or> fct then
                    bind_err (getitem cfvs_call (range_ix (term_call_indices l))) (\<lambda>v.
                    bind_err (getitem (cfvs_data l) [Idx 1]) (\<lambda>tgt.
                    bind_err (reshape_to v (shape tgt)) (\<lambda>v.
                    setitem (cfvs_data l) [Idx 1] v)))
                  else Inr (cfvs_data l))) (\<lambda>c.
     bind_err (getitem cfvs_fold (range_ix (term_fold_indices l))) (\<lambda>v.
     bind_err (getitem c [Idx 0]) (\<lambda>tgt.
     bind_err (reshape_to v (shape tgt)) (\<lambda>v.
     bind_err (setitem c [Idx 0] v) (\<lambda>c.
     (let fold_mutliplier = (if acting_player l = players_P1 st then - 1 else 1 :: real)
      in bind_err (upditem fmul c [Idx 0, All, All, All, Idx 0, All]
                     (scalar (Fin fold_mutliplier))) (\<lambda>c.
         bind_err (upditem fmul c [Idx 0, All, All, All, Idx 1, All]
                     (scalar (Fin (- fold_mutliplier)))) (\<lambda>c.
         Inr (ls[d := l\<lparr>cfvs_data := c\<rparr>]))))))))))"

definition compute_terminal_equities_terminal_equity ::
  "'g collaborators \<Rightarrow> settings \<Rightarrow> 'g lookahead \<Rightarrow> pyerror + 'g lookahead" where
  "compute_terminal_equities_terminal_equity cs st s =
     bind_err (for_each [1..<depth s] (gather_terminal_step st) s) (\<lambda>s.
     bind_err (reshape (ranges_data_call s) [- 1, hand_count st]) (\<lambda>rin.
     bind_err (reshape (cfvs_data_call s) [- 1, hand_count st]) (\<lambda>rout.
     bind_err (call_value cs rin rout) (\<lambda>res.
     bind_err (write_back (cfvs_data_call s) res) (\<lambda>cc.
     bind_err (reshape (ranges_data_fold s) [- 1, hand_count st]) (\<lambda>rin.
     bind_err (reshape (cfvs_data_fold s) [- 1, hand_count st]) (\<lambda>rout.
     bind_err (fold_value cs rin rout) (\<lambda>res.
     bind_err (write_back (cfvs_data_fold s) res) (\<lambda>cf.
     with_layers
       (for_each [1..<depth s]
          (scatter_terminal_step st cc cf (first_call_terminal s) (tree_street s)))
       (s\<lparr>cfvs_data_call := cc, cfvs_data_fold := cf\<rparr>))))))))))"

text \<open>The parent indices \<^verbatim>\<open>p_start:p_end\<close> of the next-street box of layer \<open>d\<close>.\<close>

definition box_parents :: "settings \<Rightarrow> nat \<Rightarrow> int \<Rightarrow> nat \<Rightarrow> ix" where
  "box_parents st d p_start_limit n =
     (if d = 1 then Slice (Some 0) (Some 1)
      else if \<not> nl st then Slice (Some p_start_limit) (Some (int n))
      else Slice (Some 0) (Some (- 1)))"

definition has_box :: "settings \<Rightarrow> bool \<Rightarrow> nat \<Rightarrow> npfloat ndarray \<Rightarrow> int \<Rightarrow> pyerror + bool" where
  "has_box st fct d t k =
     bind_err (getitem t [Idx k]) (\<lambda>sub.
     bind_err (shape_at sub 0) (\<lambda>n.
     Inr (n > 1 \<or> (d = 1 \<and> fct) \<or> \<not> nl st)))"

definition gather_box_step :: "settings \<Rightarrow> nat \<Rightarrow> 'g lookahead \<Rightarrow> pyerror + 'g lookahead" where
  "gather_box_step st d s =
     (if d > 1 \<or> first_call_transition s then
        bind_err (get_layer (layers s) d) (\<lambda>l.
        bind_err (has_box st (first_call_transition s) d (ranges_data l) 2) (\<lambda>b.
        if b then
          bind_err (shape_at (ranges_data l) 1) (\<lambda>n.
          bind_err (getitem (ranges_data l) [Idx 1, box_parents st d 0 n, All, All, All, All]) (\<lambda>v.
          bind_err (setitem (next_street_boxes_outputs s)
                      [Slice (Some (fst (indices l))) (Some (snd (indices l))), All, All, All] v)
            (\<lambda>out.
          Inr (s\<lparr>next_street_boxes_outputs := out\<rparr>))))
        else Inr s))
      else Inr s)"

definition scatter_box_step ::
  "settings \<Rightarrow> bool \<Rightarrow> npfloat ndarray \<Rightarrow> nat \<Rightarrow> layer list \<Rightarrow> pyerror + layer list" where
  "scatter_box_step st fct outputs d ls =
     (if d > 1 \<or> fct then
        bind_err (get_layer ls d) (\<lambda>l.
        bind_err (has_box st fct d (ranges_data l) 1) (\<lambda>b.
        if b then
          bind_err (shape_at (cfvs_data l) 1) (\<lambda>n.
          bind_err (getitem outputs
                      [Slice (Some (fst (indices l))) (Some (snd (indices l))), All, All, All]) (\<lambda>v.
          bind_err (setitem (cfvs_data l) [Idx 1, box_parents st d 1 n, All, All, All, All] v) (\<lambda>c.
          Inr (ls[d := l\<lparr>cfvs_data := c\<rparr>]))))
        else Inr ls))
      else Inr ls)"

text \<open>Swapping the two players of a box array: \<^verbatim>\<open>dst[:, :, 0, :] = src[:, :, 1, :]\<close> and back.\<close>

definition swap_players :: "npfloat ndarray \<Rightarrow> npfloat ndarray \<Rightarrow> pyerror + npfloat ndarray" where
  "swap_players dst src =
     bind_err (getitem src [All, All, Idx 1, All]) (\<lambda>v1.
     bind_err (setitem dst [All, All, Idx 0, All] v1) (\<lambda>dst.
     bind_err (getitem src [All, All, Idx 0, All]) (\<lambda>v0.
     setitem dst [All, All, Idx 1, All] v0)))"

definition compute_terminal_equities_next_street_box ::
  "'g collaborators \<Rightarrow> settings \<Rightarrow> 'g lookahead \<Rightarrow> pyerror + 'g lookahead" where
  "compute_terminal_equities_next_street_box cs st s =
     (if tree_street s \<noteq> 1 then Inl AssertionError
      else if num_pot_sizes s = 0 then Inr s
      else
        bind_err (for_each [1..<depth s] (gather_box_step st) s) (\<lambda>s.
        bind_err (if tree_current_player s = players_P2 st then Inr (next_street_boxes_outputs s)
                  else swap_players (next_street_boxes_inputs s) (next_street_boxes_outputs s))
          (\<lambda>inputs.
        bind_err (reshape inputs [- 1, players_count st, hand_count st]) (\<lambda>rin.
        bind_err (reshape (next_street_boxes_outputs s) [- 1, players_count st, hand_count st])
          (\<lambda>rout.
        bind_err (if tree_street s = 1 then get_value_aux cs rin rout (next_board_idx s)
                  else get_value cs rin rout (next_board_idx s)) (\<lambda>res.
        bind_err (write_back (next_street_boxes_outputs s) res) (\<lambda>outputs.
        bind_err (if tree_current_player s = players_P2 st
                  then bind_err (swap_players outputs outputs) (\<lambda>sw. Inr (outputs, sw))
                  else Inr (inputs, outputs)) (\<lambda>(inputs, outputs).
        with_layers
          (for_each [1..<depth s] (scatter_box_step st (first_call_transition s) outputs))
          (s\<lparr>next_street_boxes_inputs := inputs, next_street_boxes_outputs := outputs\<rparr>)))))))))"

definition scale_by_pot_step :: "nat \<Rightarrow> layer list \<Rightarrow> pyerror + layer list" where
  "scale_by_pot_step d ls =
     bind_err (get_layer ls d) (\<lambda>l.
     bind_err (np_iop fmul (cfvs_data l) (pot_size l)) (\<lambda>c.
     Inr (ls[d := l\<lparr>cfvs_data := c\<rparr>])))"

definition compute_terminal_equities ::
  "'g collaborators \<Rightarrow> settings \<Rightarrow> 'g lookahead \<Rightarrow> pyerror + 'g lookahead" where
  "compute_terminal_equities cs st s =
     (let s = enter Enter_compute_terminal_equities s
      in bind_err (if tree_street s \<noteq> streets_count st
                   then compute_terminal_equities_next_street_box cs st s else Inr s) (\<lambda>s.
         bind_err (compute_terminal_equities_terminal_equity cs st s) (\<lambda>s.
         with_layers (for_each [1..<depth s] scale_by_pot_step) s)))"

subsection \<open>Counterfactual values and regrets\<close>

definition cfvs_step :: "nat \<Rightarrow> layer list \<Rightarrow> pyerror + layer list" where
  "cfvs_step d ls =
     bind_err (if d > 2
               then bind_err (get_layer ls (d - 2)) (\<lambda>g.
                    bind_err (get_layer ls (d - 3)) (\<lambda>gg.
                    Inr (terminal_actions_count g, nonallinbets_count gg)))
               else if d = 2
               then bind_err (get_layer ls (d - 2)) (\<lambda>g. Inr (terminal_actions_count g, 1))
               else Inr (0, 1))
       (\<lambda>(gp_layer_terminal_actions_count, ggp_layer_nonallin_bets_count).
     bind_err (get_layer ls d) (\<lambda>l.
     bind_err (upditem fmul (cfvs_data l) (player_ix 0) (empty_action_mask l)) (\<lambda>c.
     bind_err (upditem fmul c (player_ix 1) (empty_action_mask l)) (\<lambda>c.
     bind_err (upditem fmul c (player_ix (acting_player l)) (current_strategy_data l)) (\<lambda>ph.
     bind_err (np_sum_keepdims ph 0) (\<lambda>rs.
     bind_err (get_layer ls (d - 1)) (\<lambda>parent.
     bind_err (reshape_to rs (shape (swap_data parent))) (\<lambda>swap.
     bind_err (transpose_nd swap [0, 2, 1, 3, 4, 5]) (\<lambda>tr.
     bind_err (setitem (cfvs_data parent)
                 [Slice (Some gp_layer_terminal_actions_count) None,
                  Slice None (Some ggp_layer_nonallin_bets_count), All, All, All, All] tr) (\<lambda>pc.
     Inr (ls[d := l\<lparr>cfvs_data := c, placeholder_data := ph, regrets_sum := rs\<rparr>,
             d - 1 := parent\<lparr>swap_data := swap, cfvs_data := pc\<rparr>])))))))))))"

definition compute_cfvs :: "'g lookahead \<Rightarrow> pyerror + 'g lookahead" where
  "compute_cfvs s =
     with_layers (for_each (rev [1..<depth s]) cfvs_step) (enter Enter_compute_cfvs s)"

text \<open>
  In \<^verbatim>\<open>_compute_regrets\<close> the local \<^verbatim>\<open>ggp_layer_nonallin_bets_count\<close> is assigned for
  \<open>d > 2\<close> and for \<open>d < 2\<close> only: at \<open>d = 2\<close> it keeps the value of the previous round of
  the loop, and is unbound when there was none. The loop carries it as an option.
\<close>

definition regrets_step ::
  "settings \<Rightarrow> int \<Rightarrow> nat \<Rightarrow> int option \<times> layer list \<Rightarrow> pyerror + int option \<times> layer list" where
  "regrets_step st bs d = (\<lambda>(ggp, ls).
     bind_err (if d > 1
               then bind_err (get_layer ls (d - 2)) (\<lambda>g.
                    Inr (terminal_actions_count g, bets_count g))
               else Inr (0, 1)) (\<lambda>(gp_layer_terminal_actions_count, gp_layer_bets_count).
     bind_err (if d > 2
               then bind_err (get_layer ls (d - 3)) (\<lambda>gg. Inr (Some (nonallinbets_count gg)))
               else if d < 2 then Inr (Some 1)
               else Inr ggp) (\<lambda>ggp.
     bind_err (get_layer ls d) (\<lambda>l.
     bind_err (getitem (cfvs_data l) (player_ix (acting_player l))) (\<lambda>cr.
     bind_err (reshape_to cr (shape (current_regrets_data l))) (\<lambda>current_regrets.
     bind_err (get_layer ls (d - 1)) (\<lambda>parent.
     bind_err (case ggp of None \<Rightarrow> Inl UnboundLocalError | Some n \<Rightarrow> Inr n)
       (\<lambda>ggp_layer_nonallin_bets_count.
     bind_err (getitem (cfvs_data parent)
                 [Slice (Some gp_layer_terminal_actions_count) None,
                  Slice None (Some ggp_layer_nonallin_bets_count), All, All,
                  Idx (acting_player l), All]) (\<lambda>sl.
     bind_err (transpose_nd sl [0, 2, 1, 3, 4]) (\<lambda>pin.
     bind_err (reshape pin [1, gp_layer_bets_count, - 1, bs, hand_count st]) (\<lambda>pin.
     bind_err (np_binop fmul pin (ones_like current_regrets)) (\<lambda>pin.
     bind_err (np_iop fsub current_regrets pin) (\<lambda>current_regrets.
     bind_err (np_iop fadd (regrets_data l) current_regrets) (\<lambda>r.
     Inr (ggp, ls[d := l\<lparr>regrets_data := np_clip r (Fin 0) (max_number st)\<rparr>])))))))))))))))"

definition compute_regrets :: "settings \<Rightarrow> 'g lookahead \<Rightarrow> pyerror + 'g lookahead" where
  "compute_regrets st s =
     with_layers (\<lambda>ls.
       bind_err (for_each (rev [1..<depth s]) (regrets_step st (batch_size s)) (None, ls))
         (\<lambda>(ggp, ls). Inr ls))
     (enter Enter_compute_regrets s)"

subsection \<open>The gadget driver and the main loop\<close>

definition set_opponent_starting_range ::
  "'g collaborators \<Rightarrow> int \<Rightarrow> 'g lookahead \<Rightarrow> pyerror + 'g lookahead" where
  "set_opponent_starting_range cs iteration s =
     (let s = enter (Enter_set_opponent_starting_range iteration) s
      in if reconstruction_opponent_cfvs s \<noteq> None then
           bind_err (get_layer (layers s) 0) (\<lambda>l.
           bind_err (getitem (cfvs_data l) (player_ix 0)) (\<lambda>cfvs.
           bind_err (case reconstruction_gadget s of None \<Rightarrow> Inl AttributeError | Some g \<Rightarrow> Inr g)
             (\<lambda>g.
           bind_err (compute_opponent_range cs g cfvs iteration) (\<lambda>(opponent_range, g').
           bind_err (setitem (ranges_data l) (player_ix 1) opponent_range) (\<lambda>r.
           Inr (s\<lparr>layers := (layers s)[0 := l\<lparr>ranges_data := r\<rparr>],
                  reconstruction_gadget := Some g',
                  history := history s @ [Call_compute_opponent_range cfvs iteration]\<rparr>))))))
         else Inr s)"

definition iteration :: "'g collaborators \<Rightarrow> settings \<Rightarrow> nat \<Rightarrow> 'g lookahead \<Rightarrow> pyerror + 'g lookahead" where
  "iteration cs st iter s =
     bind_err (set_opponent_starting_range cs (int iter) s) (\<lambda>s.
     bind_err (compute_current_strategies st s) (\<lambda>s.
     bind_err (compute_ranges st s) (\<lambda>s.
     bind_err (compute_update_average_strategies st (int iter) s) (\<lambda>s.
     bind_err (compute_terminal_equities cs st s) (\<lambda>s.
     bind_err (compute_cfvs s) (\<lambda>s.
     bind_err (compute_regrets st s) (\<lambda>s.
     compute_cumulate_average_cfvs st (int iter) s)))))))"

definition compute :: "'g collaborators \<Rightarrow> settings \<Rightarrow> 'g lookahead \<Rightarrow> pyerror + 'g lookahead" where
  "compute cs st s =
     bind_err (for_each [0..<nat (cfr_iters st)] (iteration cs st) s) (\<lambda>s.
     bind_err (compute_normalize_average_strategies s) (\<lambda>s.
     compute_normalize_average_cfvs st s))"

subsection \<open>Entry points\<close>


definition copy_arg :: "npfloat ndarray option \<Rightarrow> pyerror + npfloat ndarray" where
  "copy_arg a = (case a of None \<Rightarrow> Inl AttributeError | Some t \<Rightarrow> Inr t)"

definition set_root_range ::
  "ix list \<Rightarrow> npfloat ndarray \<Rightarrow> 'g lookahead \<Rightarrow> pyerror + 'g lookahead" where
  "set_root_range ixs v s =
     with_layers (\<lambda>ls.
       bind_err (get_layer ls 0) (\<lambda>l.
       bind_err (setitem (ranges_data l) ixs v) (\<lambda>r.
       Inr (ls[0 := l\<lparr>ranges_data := r\<rparr>])))) s"

definition resolve_first_node ::
  "'g collaborators \<Rightarrow> settings \<Rightarrow> npfloat ndarray option \<Rightarrow> npfloat ndarray option
     \<Rightarrow> 'g lookahead \<Rightarrow> pyerror + 'g lookahead" where
  "resolve_first_node cs st player_range opponent_range s =
     bind_err (copy_arg player_range) (\<lambda>pr.
     bind_err (set_root_range (player_ix 0) pr s) (\<lambda>s.
     bind_err (copy_arg opponent_range) (\<lambda>orng.
     bind_err (set_root_range (player_ix 1) orng s) (\<lambda>s.
     compute cs st s))))"

definition resolve ::
  "'g collaborators \<Rightarrow> settings \<Rightarrow> npfloat ndarray option \<Rightarrow> npfloat ndarray option
     \<Rightarrow> 'g lookahead \<Rightarrow> pyerror + 'g lookahead" where
  "resolve cs st player_range opponent_cfvs s =
     (case player_range of None \<Rightarrow> Inl AssertionError | Some pr \<Rightarrow>
      case opponent_cfvs of None \<Rightarrow> Inl AssertionError | Some oc \<Rightarrow>
        (let s = s\<lparr>reconstruction_gadget := Some (new_gadget cs (tree_board s) pr oc)\<rparr>
         in bind_err (set_root_range [All, All, All, Idx 0, All] pr s) (\<lambda>s.
            compute cs st (s\<lparr>reconstruction_opponent_cfvs := Some oc\<rparr>))))"

subsection \<open>Results\<close>

text \<open>
  Modelled from the spec: the class \<^verbatim>\<open>LookaheadResults\<close> of \<^verbatim>\<open>helper_classes\<close> is not in
  the source; its record has the fields \<^verbatim>\<open>strategy\<close>, \<^verbatim>\<open>achieved_cfvs\<close>, \<^verbatim>\<open>children_cfvs\<close>
  and the optional \<^verbatim>\<open>root_cfvs\<close> and \<^verbatim>\<open>root_cfvs_both_players\<close>. A field that
  \<^verbatim>\<open>get_results\<close> does not assign is None here.
\<close>

record lookahead_results =
  strategy :: "npfloat ndarray option"
  achieved_cfvs :: "npfloat ndarray option"
  root_cfvs :: "npfloat ndarray option"
  root_cfvs_both_players :: "npfloat ndarray option"
  children_cfvs :: "npfloat ndarray option"




text \<open>
  \<^verbatim>\<open>get_chance_action_cfv\<close>: \<^verbatim>\<open>box_outputs\<close> is a reshaped view of
  \<^verbatim>\<open>next_street_boxes_outputs\<close> and \<^verbatim>\<open>out\<close> a view of one of its rows, so the value
  collaborator and \<^verbatim>\<open>out *= pot_mult\<close> both write into the lookahead's array.
\<close>

definition get_chance_action_cfv ::
  "'g collaborators \<Rightarrow> settings \<Rightarrow> int \<Rightarrow> int list \<Rightarrow> 'g lookahead
     \<Rightarrow> pyerror + npfloat ndarray \<times> 'g lookahead" where
  "get_chance_action_cfv cs st action board s =
     bind_err (reshape (next_street_boxes_outputs s) [- 1, players_count st, hand_count st])
       (\<lambda>box_outputs.
     bind_err (case action_to_index s action of None \<Rightarrow> Inl KeyError | Some b \<Rightarrow> Inr b)
       (\<lambda>batch_index.
     bind_err (case batch_index of None \<Rightarrow> Inl AssertionError | Some b \<Rightarrow> Inr b)
       (\<lambda>batch_index.
     bind_err (getitem (next_round_pot_sizes s) [Idx batch_index]) (\<lambda>pot_mult.
     bind_err (get_value_on_board cs board box_outputs) (\<lambda>res.
     bind_err (write_back box_outputs res) (\<lambda>box_outputs.
     bind_err (getitem box_outputs [Idx batch_index, Idx (tree_current_player s)]) (\<lambda>out.
     bind_err (np_iop fmul out pot_mult) (\<lambda>out.
     bind_err (setitem box_outputs [Idx batch_index, Idx (tree_current_player s)] out)
       (\<lambda>box_outputs.
     bind_err (write_back (next_street_boxes_outputs s) box_outputs) (\<lambda>outputs.
     Inr (out, s\<lparr>next_street_boxes_outputs := outputs\<rparr>)))))))))))"

section \<open>Predicates on arrays and layers\<close>

definition is_fin :: "npfloat \<Rightarrow> bool" where
  "is_fin x = (case x of Fin a \<Rightarrow> True | _ \<Rightarrow> False)"

definition all_fin :: "npfloat ndarray \<Rightarrow> bool" where
  "all_fin t = list_all is_fin (data t)"

definition all_nonneg :: "npfloat ndarray \<Rightarrow> bool" where
  "all_nonneg t = list_all (fle (Fin 0)) (data t)"

text \<open>What \<^verbatim>\<open>_compute_regrets\<close> reads of a layer: well-formed, finite numbers.\<close>

definition regret_inputs_ok :: "layer \<Rightarrow> bool" where
  "regret_inputs_ok l =
     (wf_array (cfvs_data l) \<and> all_fin (cfvs_data l) \<and> all_fin (regrets_data l))"

definition succeeds :: "pyerror + 'a \<Rightarrow> bool" where
  "succeeds m = (case m of Inl e \<Rightarrow> False | Inr x \<Rightarrow> True)"

section \<open>A toy lookahead\<close>

text \<open>
  The smallest lookahead with a decision: the root and one layer below it with two
  terminal actions (fold, call), one hand, batch size 1, on the last street. The
  terminal-equity stub pays 1 on a fold and 3 (to one player, -3 to the other) on a call.
\<close>

definition zeros :: "nat list \<Rightarrow> npfloat ndarray" where
  "zeros shp = full shp (Fin 0)"

definition toy_settings :: settings where
  "toy_settings = \<lparr>cfr_iters = 3, cfr_skip_iters = 1, max_number = Fin 999999,
     players_count = 2, hand_count = 1, streets_count = 2, nl = True,
     players_P1 = 0, players_P2 = 1\<rparr>"

definition toy_root :: layer where
  "toy_root = \<lparr>ranges_data = zeros [1,1,1,1,2,1], current_strategy_data = zeros [1,1,1,1,1],
     regrets_data = zeros [1,1,1,1,1], positive_regrets_data = zeros [1,1,1,1,1],
     regrets_sum = zeros [1,1,1,1,1], cfvs_data = zeros [1,1,1,1,2,1],
     average_strategies_data = zeros [1,1,1,1,1], average_cfvs_data = zeros [1,1,1,1,2,1],
     empty_action_mask = full [1,1,1,1,1] (Fin 1), placeholder_data = zeros [1,1,1,1,2,1],
     swap_data = zeros [1,1,1,1,2,1], inner_nodes = zeros [1,1,1,1,2,1],
     current_regrets_data = zeros [1,1,1,1,1], pot_size = full [1,1,1,1,1,1] (Fin 1),
     acting_player = 0, bets_count = 0, actions_count = 2, terminal_actions_count = 2,
     nonallinbets_count = 0, term_call_indices = (0,0), term_fold_indices = (0,0),
     indices = (0,0)\<rparr>"

definition toy_child :: layer where
  "toy_child = \<lparr>ranges_data = zeros [2,1,1,1,2,1], current_strategy_data = zeros [2,1,1,1,1],
     regrets_data = zeros [2,1,1,1,1], positive_regrets_data = zeros [2,1,1,1,1],
     regrets_sum = zeros [1,1,1,1,1], cfvs_data = zeros [2,1,1,1,2,1],
     average_strategies_data = zeros [2,1,1,1,1], average_cfvs_data = zeros [2,1,1,1,2,1],
     empty_action_mask = full [2,1,1,1,1] (Fin 1), placeholder_data = zeros [2,1,1,1,2,1],
     swap_data = zeros [0], inner_nodes = zeros [0],
     current_regrets_data = zeros [2,1,1,1,1], pot_size = full [2,1,1,1,1,1] (Fin 1),
     acting_player = 1, bets_count = 0, actions_count = 0, terminal_actions_count = 0,
     nonallinbets_count = 0, term_call_indices = (0,1), term_fold_indices = (0,1),
     indices = (0,0)\<rparr>"

definition toy_built :: "unit lookahead" where
  "toy_built = \<lparr>layers = [toy_root, toy_child], depth = 2, batch_size = 1,
     regret_epsilon = Fin 1, reconstruction_opponent_cfvs = None,
     reconstruction_gadget = None, tree_street = 2, tree_current_player = 0,
     tree_board = [], first_call_terminal = True, first_call_transition = False,
     ranges_data_call = zeros [1,1,2,1], ranges_data_fold = zeros [1,1,2,1],
     cfvs_data_call = zeros [1,1,2,1], cfvs_data_fold = zeros [1,1,2,1], num_pot_sizes = 0,
     next_street_boxes_inputs = zeros [0,1,2,1], next_street_boxes_outputs = zeros [0,1,2,1],
     next_board_idx = 0, action_to_index = Map.empty, next_round_pot_sizes = zeros [0],
     history = []\<rparr>"

definition toy_collab :: "unit collaborators" where
  "toy_collab = \<lparr>new_gadget = (\<lambda>b p c. ()),
     compute_opponent_range = (\<lambda>g c i. Inr (\<lparr>shape = [1], data = [Fin 1]\<rparr>, g)),
     call_value = (\<lambda>r out. Inr \<lparr>shape = shape out, data = [Fin 3, Fin (- 3)]\<rparr>),
     fold_value = (\<lambda>r out. Inr (full (shape out) (Fin 1))),
     get_value_aux = (\<lambda>r out i. Inr out), get_value = (\<lambda>r out i. Inr out),
     get_value_on_board = (\<lambda>b out. Inr out)\<rparr>"

definition one_hand :: "npfloat ndarray" where
  "one_hand = \<lparr>shape = [1], data = [Fin 1]\<rparr>"

text \<open>The toy lookahead with counterfactual values in place and some regret accumulated.\<close>

definition toy_evaluated :: "unit lookahead" where
  "toy_evaluated = toy_built\<lparr>layers :=
     [toy_root\<lparr>cfvs_data := \<lparr>shape = [1,1,1,1,2,1], data = [Fin 4, Fin (- 2)]\<rparr>\<rparr>,
      toy_child\<lparr>cfvs_data := \<lparr>shape = [2,1,1,1,2,1], data = [Fin 1, Fin (- 1), Fin 3, Fin (- 3)]\<rparr>,
                regrets_data := \<lparr>shape = [2,1,1,1,1], data = [Fin 2, Fin (1/2)]\<rparr>\<rparr>]\<rparr>"

text \<open>
  What regret matching reads of a layer: regrets that are numbers (not NaN), a mask of
  zeros and ones and a strategy array, all of the shape of the regrets.
\<close>

definition strategy_inputs_ok :: "layer \<Rightarrow> bool" where
  "strategy_inputs_ok l =
     (wf_array (regrets_data l) \<and> list_all (\<lambda>x. x \<noteq> NaN) (data (regrets_data l))
      \<and> wf_array (empty_action_mask l)
      \<and> list_all (\<lambda>x. x = Fin 0 \<or> x = Fin 1) (data (empty_action_mask l))
      \<and> shape (empty_action_mask l) = shape (regrets_data l)
      \<and> shape (current_strategy_data l) = shape (regrets_data l))"

text \<open>
  An entry of the accumulated average strategy is a sum of strategy entries: a
  non-negative number, or NaN.
\<close>

definition reach_value :: "npfloat \<Rightarrow> bool" where
  "reach_value x = (x = NaN \<or> (is_fin x \<and> fle (Fin 0) x))"

definition average_inputs_ok :: "layer \<Rightarrow> bool" where
  "average_inputs_ok l =
     (wf_array (average_strategies_data l) \<and> list_all reach_value (data (average_strategies_data l)))"

text \<open>The toy lookahead with an accumulated average strategy: the second hand was never reached.\<close>

definition toy_averaged :: "unit lookahead" where
  "toy_averaged = toy_built\<lparr>layers :=
     [toy_root,
      toy_child\<lparr>average_strategies_data :=
        \<lparr>shape = [2,1,1,1,2], data = [Fin 1, Fin 0, Fin 3, Fin 0]\<rparr>\<rparr>]\<rparr>"

text \<open>
  The toy lookahead at a street transition: action 7 is mapped to batch index 0 of the
  next-street outputs, whose pot size is 5; the value collaborator answers 2 for the
  first player and 3 for the second.
\<close>

definition toy_transition :: "unit lookahead" where
  "toy_transition = toy_built\<lparr>
     next_street_boxes_outputs := zeros [1,1,2,1],
     action_to_index := [7 \<mapsto> Some 0],
     next_round_pot_sizes := \<lparr>shape = [1], data = [Fin 5]\<rparr>\<rparr>"

definition toy_box_collab :: "unit collaborators" where
  "toy_box_collab = toy_collab\<lparr>get_value_on_board :=
     (\<lambda>b out. Inr \<lparr>shape = shape out, data = [Fin 2, Fin 3]\<rparr>)\<rparr>"

section \<open>A toy lookahead on the first street\<close>

text \<open>
  The same root, now on street 1 of 2 with one next-street pot size: the layer below the
  root has three action slots, a fold, a call that ends the street (the transition into
  the next-street box, \<^verbatim>\<open>first_call_transition\<close>) and an empty bet slot that the mask
  switches off. There is no terminal call, so the call buffers are empty. The next-street
  stub values the one box position at 2 for one player and -2 for the other. Two
  iterations, none skipped.
\<close>

definition box_settings :: settings where
  "box_settings = \<lparr>cfr_iters = 2, cfr_skip_iters = 0, max_number = Fin 999999,
     players_count = 2, hand_count = 1, streets_count = 2, nl = True,
     players_P1 = 0, players_P2 = 1\<rparr>"

definition box_child :: layer where
  "box_child = \<lparr>ranges_data = zeros [3,1,1,1,2,1], current_strategy_data = zeros [3,1,1,1,1],
     regrets_data = zeros [3,1,1,1,1], positive_regrets_data = zeros [3,1,1,1,1],
     regrets_sum = zeros [1,1,1,1,1], cfvs_data = zeros [3,1,1,1,2,1],
     average_strategies_data = zeros [3,1,1,1,1], average_cfvs_data = zeros [3,1,1,1,2,1],
     empty_action_mask = \<lparr>shape = [3,1,1,1,1], data = [Fin 1, Fin 1, Fin 0]\<rparr>,
     placeholder_data = zeros [3,1,1,1,2,1],
     swap_data = zeros [0], inner_nodes = zeros [0],
     current_regrets_data = zeros [3,1,1,1,1], pot_size = full [3,1,1,1,1,1] (Fin 1),
     acting_player = 1, bets_count = 0, actions_count = 0, terminal_actions_count = 0,
     nonallinbets_count = 0, term_call_indices = (0,0), term_fold_indices = (0,1),
     indices = (0,1)\<rparr>"

definition box_built :: "unit lookahead" where
  "box_built = \<lparr>layers = [toy_root, box_child], depth = 2, batch_size = 1,
     regret_epsilon = Fin 1, reconstruction_opponent_cfvs = None,
     reconstruction_gadget = None, tree_street = 1, tree_current_player = 0,
     tree_board = [], first_call_terminal = False, first_call_transition = True,
     ranges_data_call = zeros [0,1,2,1], ranges_data_fold = zeros [1,1,2,1],
     cfvs_data_call = zeros [0,1,2,1], cfvs_data_fold = zeros [1,1,2,1], num_pot_sizes = 1,
     next_street_boxes_inputs = zeros [1,1,2,1], next_street_boxes_outputs = zeros [1,1,2,1],
     next_board_idx = 0, action_to_index = Map.empty, next_round_pot_sizes = zeros [1],
     history = []\<rparr>"

definition box_collab :: "unit collaborators" where
  "box_collab = toy_collab\<lparr>
     call_value := (\<lambda>r out. Inr out),
     get_value_aux := (\<lambda>r out i. Inr \<lparr>shape = shape out, data = [Fin 2, Fin (- 2)]\<rparr>)\<rparr>"

text \<open>A run that returns a state with the property \<open>P\<close>.\<close>

definition returns_with :: "pyerror + 'a \<Rightarrow> ('a \<Rightarrow> bool) \<Rightarrow> bool" where
  "returns_with m P = (case m of Inl e \<Rightarrow> False | Inr x \<Rightarrow> P x)"

section \<open>Histories of runs\<close>

text \<open>
  Two states of the same run: the history and the fields that steer a run agree.
  \<open>entered ev s s'\<close>: from \<open>s\<close> to \<open>s'\<close> the history grew by the one entry \<open>ev\<close>.
\<close>

definition same_run :: "'g lookahead \<Rightarrow> 'g lookahead \<Rightarrow> bool" where
  "same_run s s' = (reconstruction_opponent_cfvs s' = reconstruction_opponent_cfvs s
     \<and> reconstruction_gadget s' = reconstruction_gadget s
     \<and> history s' = history s \<and> depth s' = depth s \<and> batch_size s' = batch_size s)"

definition entered :: "event \<Rightarrow> 'g lookahead \<Rightarrow> 'g lookahead \<Rightarrow> bool" where
  "entered ev s s' = (history s' = history s @ [ev]
     \<and> reconstruction_opponent_cfvs s' = reconstruction_opponent_cfvs s
     \<and> reconstruction_gadget s' = reconstruction_gadget s
     \<and> depth s' = depth s \<and> batch_size s' = batch_size s)"

text \<open>The method entries of one iteration, of the final pass, and of a whole run.\<close>

definition iteration_entries :: "nat \<Rightarrow> event list" where
  "iteration_entries i =
     [Enter_set_opponent_starting_range (int i), Enter_compute_current_strategies,
      Enter_compute_ranges, Enter_compute_update_average_strategies (int i),
      Enter_compute_terminal_equities, Enter_compute_cfvs, Enter_compute_regrets,
      Enter_compute_cumulate_average_cfvs (int i)]"

definition final_entries :: "event list" where
  "final_entries =
     [Enter_compute_normalize_average_strategies, Enter_compute_normalize_average_cfvs]"

definition run_entries :: "settings \<Rightarrow> event list" where
  "run_entries st = concat (map iteration_entries [0..<nat (cfr_iters st)]) @ final_entries"

fun is_method_entry :: "event \<Rightarrow> bool" where
  "is_method_entry (Call_compute_opponent_range c i) = False"
| "is_method_entry ev = True"

definition method_entries :: "event list \<Rightarrow> event list" where
  "method_entries h = filter is_method_entry h"

text \<open>
  An iteration of a re-solve with reconstruction: the gadget is called with \<open>c\<close> right
  after \<^verbatim>\<open>_set_opponent_starting_range\<close> is entered. \<open>gadget_argument cs st s i\<close> is the
  slice \<^verbatim>\<open>layers[0].cfvs_data[:, :, :, :, 0, :]\<close> of the state in which iteration \<open>i\<close> of
  the run from \<open>s\<close> starts.
\<close>

definition iteration_events_with_call :: "nat \<Rightarrow> npfloat ndarray \<Rightarrow> event list" where
  "iteration_events_with_call i c =
     [Enter_set_opponent_starting_range (int i), Call_compute_opponent_range c (int i),
      Enter_compute_current_strategies,
      Enter_compute_ranges, Enter_compute_update_average_strategies (int i),
      Enter_compute_terminal_equities, Enter_compute_cfvs, Enter_compute_regrets,
      Enter_compute_cumulate_average_cfvs (int i)]"

definition root_cfvs_slice :: "'g lookahead \<Rightarrow> pyerror + npfloat ndarray" where
  "root_cfvs_slice s =
     bind_err (get_layer (layers s) 0) (\<lambda>l. getitem (cfvs_data l) (player_ix 0))"

definition gadget_argument ::
  "'g collaborators \<Rightarrow> settings \<Rightarrow> 'g lookahead \<Rightarrow> nat \<Rightarrow> pyerror + npfloat ndarray" where
  "gadget_argument cs st s i =
     bind_err (for_each [0..<i] (iteration cs st) s) root_cfvs_slice"

text \<open>The state in which \<^verbatim>\<open>resolve\<close> calls \<^verbatim>\<open>_compute\<close>.\<close>

definition resolve_start ::
  "'g collaborators \<Rightarrow> npfloat ndarray \<Rightarrow> npfloat ndarray \<Rightarrow> 'g lookahead \<Rightarrow> pyerror + 'g lookahead" where
  "resolve_start cs pr oc s =
     bind_err (set_root_range [All, All, All, Idx 0, All] pr
                 (s\<lparr>reconstruction_gadget := Some (new_gadget cs (tree_board s) pr oc)\<rparr>))
       (\<lambda>s. Inr (s\<lparr>reconstruction_opponent_cfvs := Some oc\<rparr>))"

section \<open>Facts about arrays\<close>

lemma bind_err_Inr_iff: "bind_err m f = Inr y \<longleftrightarrow> (\<exists>x. m = Inr x \<and> f x = Inr y)"
  by (cases m) (simp_all add: bind_err_def)

lemma bind_err_simps [simp]: "bind_err (Inr x) f = f x" "bind_err (Inl e) f = Inl e"
  by (simp_all add: bind_err_def)

lemma valid_idx_Nil [simp]: "valid_idx [] idx \<longleftrightarrow> idx = []"
  by (simp add: valid_idx_def)

lemma valid_idx_Cons: "valid_idx (n # ns) idx \<longleftrightarrow> (\<exists>i is. idx = i # is \<and> i < n \<and> valid_idx ns is)"
  by (auto simp: valid_idx_def list_all2_Cons2)

lemma valid_idx_Cons_Cons [simp]: "valid_idx (n # ns) (i # is) \<longleftrightarrow> i < n \<and> valid_idx ns is"
  by (simp add: valid_idx_def)

lemma valid_idx_length: "valid_idx shp idx \<Longrightarrow> length idx = length shp"
  by (simp add: valid_idx_def list_all2_lengthD)

lemma valid_idx_nth: "valid_idx shp idx \<Longrightarrow> k < length shp \<Longrightarrow> idx ! k < shp ! k"
  by (simp add: valid_idx_def list_all2_conv_all_nth)

lemma ravel_less: "valid_idx shp idx \<Longrightarrow> ravel shp idx < prod_list shp"
proof (induction shp arbitrary: idx)
  case Nil
  then show ?case by simp
next
  case (Cons n ns)
  then obtain i "is" where idx: "idx = i # is" "i < n" "valid_idx ns is"
    by (auto simp: valid_idx_Cons)
  have r: "ravel ns is < prod_list ns" using Cons.IH idx by simp
  have "i * prod_list ns + ravel ns is < Suc i * prod_list ns" using r by simp
  also have "\<dots> \<le> n * prod_list ns" using idx(2) by (intro mult_le_mono1) simp
  finally show ?case using idx by simp
qed

lemma unravel_ravel: "valid_idx shp idx \<Longrightarrow> unravel shp (ravel shp idx) = idx"
proof (induction shp arbitrary: idx)
  case Nil
  then show ?case by simp
next
  case (Cons n ns)
  then obtain i "is" where idx: "idx = i # is" "i < n" "valid_idx ns is"
    by (auto simp: valid_idx_Cons)
  have r: "ravel ns is < prod_list ns" using ravel_less idx by simp
  show ?case using Cons.IH[OF idx(3)] r idx by simp
qed

lemma valid_unravel: "k < prod_list shp \<Longrightarrow> valid_idx shp (unravel shp k)"
proof (induction shp arbitrary: k)
  case Nil
  then show ?case by simp
next
  case (Cons n ns)
  have pos: "0 < prod_list ns" using Cons.prems by (cases "prod_list ns") auto
  have "k div prod_list ns < n" using Cons.prems pos
    by (simp add: less_mult_imp_div_less mult.commute)
  moreover have "valid_idx ns (unravel ns (k mod prod_list ns))"
    using Cons.IH pos by simp
  ultimately show ?case by simp
qed

lemma ravel_unravel: "k < prod_list shp \<Longrightarrow> ravel shp (unravel shp k) = k"
proof (induction shp arbitrary: k)
  case Nil
  then show ?case by simp
next
  case (Cons n ns)
  have pos: "0 < prod_list ns" using Cons.prems by (cases "prod_list ns") auto
  show ?case using Cons.IH[of "k mod prod_list ns"] pos by simp
qed

lemma shape_tabulate [simp]: "shape (tabulate shp f) = shp"
  by (simp add: tabulate_def)

lemma wf_tabulate [simp]: "wf_array (tabulate shp f)"
  by (simp add: tabulate_def wf_array_def)

lemma item_tabulate: "valid_idx shp idx \<Longrightarrow> item (tabulate shp f) idx = f idx"
  by (simp add: item_def tabulate_def ravel_less unravel_ravel)

lemma data_tabulate_mem:
  "x \<in> set (data (tabulate shp f)) \<Longrightarrow> \<exists>idx. valid_idx shp idx \<and> x = f idx"
  using valid_unravel by (fastforce simp: tabulate_def)

lemma item_mem: "wf_array t \<Longrightarrow> valid_idx (shape t) idx \<Longrightarrow> item t idx \<in> set (data t)"
  by (simp add: item_def wf_array_def ravel_less)

lemma data_mem_item:
  "wf_array t \<Longrightarrow> x \<in> set (data t) \<Longrightarrow> \<exists>idx. valid_idx (shape t) idx \<and> x = item t idx"
  by (metis in_set_conv_nth item_def ravel_unravel valid_unravel wf_array_def)

lemma tabulate_item: "wf_array t \<Longrightarrow> tabulate (shape t) (item t) = t"
  by (cases t) (auto simp: tabulate_def item_def wf_array_def ravel_unravel intro!: nth_equalityI)

lemma norm_idx_less: "idx_ok n i \<Longrightarrow> norm_idx n i < n"
  by (auto simp: idx_ok_def norm_idx_def)

lemma clamp_bound_le: "clamp_bound n i \<le> n"
  by (auto simp: clamp_bound_def Let_def)

lemma slice_stop_le: "slice_stop n b \<le> n"
  by (cases b) (simp_all add: slice_stop_def clamp_bound_le)

lemma slice_in_range: "j < slice_len n a b \<Longrightarrow> slice_start n a + j < n"
  using slice_stop_le[of n b] by (simp add: slice_len_def)

lemma valid_sel_src:
  "sel_shape shp ixs = Inr shp' \<Longrightarrow> valid_idx shp' idx \<Longrightarrow> valid_idx shp (sel_src shp ixs idx)"
proof (induction shp ixs arbitrary: shp' idx rule: sel_shape.induct)
  case (1 shp)
  then show ?case by (cases shp) auto
next
  case (2 i "is")
  then show ?case by simp
next
  case (3 n ns i "is")
  then show ?case by (auto simp: norm_idx_less split: if_splits)
next
  case (4 n ns a b "is")
  from 4(2) obtain r where r: "sel_shape ns is = Inr r" "shp' = slice_len n a b # r"
    by (auto simp: bind_err_Inr_iff)
  with 4(3) obtain j js where idx: "idx = j # js" "j < slice_len n a b" "valid_idx r js"
    by (auto simp: valid_idx_Cons)
  show ?case using 4(1)[OF r(1) idx(3)] idx slice_in_range by simp
qed

lemma index_of_nth: "j \<in> set ps \<Longrightarrow> index_of ps j < length ps \<and> ps ! index_of ps j = j"
  by (induction ps) auto

lemma is_perm_set: "is_perm perm r \<Longrightarrow> set perm = {0..<r}"
proof -
  assume p: "is_perm perm r"
  then have sub: "set perm \<subseteq> {0..<r}" by (auto simp: is_perm_def list_all_iff)
  have "card (set perm) = r" using p by (simp add: is_perm_def distinct_card)
  then show ?thesis using sub by (simp add: card_subset_eq)
qed

lemma valid_transpose_src:
  assumes "is_perm perm (length shp)" "valid_idx (map (\<lambda>p. shp ! p) perm) idx"
  shows "valid_idx shp (transpose_src perm idx)"
proof -
  have len: "length perm = length shp" using assms(1) by (simp add: is_perm_def)
  have lidx: "length idx = length shp" using valid_idx_length[OF assms(2)] len by simp
  have "idx ! index_of perm j < shp ! j" if "j < length shp" for j
  proof -
    have "j \<in> set perm" using is_perm_set[OF assms(1)] that by simp
    then have k: "index_of perm j < length perm" "perm ! index_of perm j = j"
      using index_of_nth by auto
    have "idx ! index_of perm j < map (\<lambda>p. shp ! p) perm ! index_of perm j"
      using valid_idx_nth[OF assms(2)] k(1) by simp
    then show ?thesis using k by simp
  qed
  then show ?thesis
    by (simp add: valid_idx_def transpose_src_def list_all2_conv_all_nth len)
qed

lemma valid_bc_src:
  assumes "bc_ok src dst" "valid_idx dst idx"
  shows "valid_idx src (bc_src src idx)"
proof -
  let ?k = "length dst - length src"
  have len: "length idx = length dst" using valid_idx_length[OF assms(2)] .
  have le: "length src \<le> length dst" and
    all: "list_all2 (\<lambda>m n. m = n \<or> m = 1) src (drop ?k dst)"
    using assms(1) by (auto simp: bc_ok_def)
  have ld: "length (drop ?k idx) = length src" using len le by simp
  have *: "src ! j \<noteq> 1 \<Longrightarrow> drop ?k idx ! j < src ! j" if j: "j < length src" for j
  proof -
    have "src ! j = drop ?k dst ! j \<or> src ! j = 1"
      using all j by (auto simp: list_all2_conv_all_nth)
    moreover have "idx ! (?k + j) < dst ! (?k + j)"
      using valid_idx_nth[OF assms(2)] j le by simp
    ultimately show "src ! j \<noteq> 1 \<Longrightarrow> drop ?k idx ! j < src ! j" using j le len by auto
  qed
  show ?thesis unfolding valid_idx_def bc_src_def len
  proof (rule list_all2_all_nthI)
    show "length (map2 (\<lambda>m i. if m = 1 then 0 else i) src (drop ?k idx)) = length src"
      using ld by simp
  next
    fix n assume "n < length (map2 (\<lambda>m i. if m = 1 then 0 else i) src (drop ?k idx))"
    then have n: "n < length src" using ld by simp
    have "(if src ! n = 1 then 0 else drop ?k idx ! n) < src ! n"
      using *[OF n] by auto
    then show "map2 (\<lambda>m i. if m = 1 then 0 else i) src (drop ?k idx) ! n < src ! n"
      using n ld by (simp del: nth_drop)
  qed
qed

subsection \<open>Entries of results\<close>

lemma data_getitem_subset:
  assumes "wf_array t" "getitem t ixs = Inr r"
  shows "set (data r) \<subseteq> set (data t)"
proof
  fix x assume x: "x \<in> set (data r)"
  from assms(2) obtain shp where s: "sel_shape (shape t) ixs = Inr shp"
    and r: "r = tabulate shp (\<lambda>idx. item t (sel_src (shape t) ixs idx))"
    by (auto simp: getitem_def bind_err_Inr_iff)
  from data_tabulate_mem[OF x[unfolded r]]
  obtain idx where "valid_idx shp idx" "x = item t (sel_src (shape t) ixs idx)"
    by auto
  then show "x \<in> set (data t)" using item_mem[OF assms(1)] valid_sel_src[OF s] by simp
qed

lemma wf_getitem: "getitem t ixs = Inr r \<Longrightarrow> wf_array r"
  by (auto simp: getitem_def bind_err_Inr_iff)

lemma data_transpose_subset:
  assumes "wf_array t" "transpose_nd t perm = Inr r"
  shows "set (data r) \<subseteq> set (data t)"
proof
  fix x assume x: "x \<in> set (data r)"
  from assms(2) have p: "is_perm perm (length (shape t))"
    and r: "r = tabulate (map (\<lambda>p. shape t ! p) perm) (\<lambda>idx. item t (transpose_src perm idx))"
    by (auto simp: transpose_nd_def split: if_splits)
  from data_tabulate_mem[OF x[unfolded r]]
  obtain idx where "valid_idx (map (\<lambda>p. shape t ! p) perm) idx"
    "x = item t (transpose_src perm idx)"
    by auto
  then show "x \<in> set (data t)" using item_mem[OF assms(1)] valid_transpose_src[OF p] by simp
qed

lemma wf_transpose: "transpose_nd t perm = Inr r \<Longrightarrow> wf_array r"
  by (auto simp: transpose_nd_def split: if_splits)

lemma data_broadcast_subset:
  assumes "wf_array t" "broadcast_to t shp = Inr r"
  shows "set (data r) \<subseteq> set (data t)"
proof
  fix x assume x: "x \<in> set (data r)"
  from assms(2) have p: "bc_ok (shape t) shp"
    and r: "r = tabulate shp (\<lambda>idx. item t (bc_src (shape t) idx))"
    by (auto simp: broadcast_to_def split: if_splits)
  from data_tabulate_mem[OF x[unfolded r]]
  obtain idx where "valid_idx shp idx" "x = item t (bc_src (shape t) idx)"
    by auto
  then show "x \<in> set (data t)" using item_mem[OF assms(1)] valid_bc_src[OF p] by simp
qed

lemma broadcast_to_shape: "broadcast_to t shp = Inr r \<Longrightarrow> shape r = shp \<and> wf_array r"
  by (auto simp: broadcast_to_def split: if_splits)

lemma reshape_data: "reshape t dims = Inr r \<Longrightarrow> data r = data t"
  by (auto simp: reshape_def bind_err_Inr_iff)

lemma data_np_binop:
  assumes "wf_array a" "wf_array b" "np_binop f a b = Inr r" "x \<in> set (data r)"
  shows "\<exists>u \<in> set (data a). \<exists>v \<in> set (data b). x = f u v"
proof -
  from assms(3) obtain shp a' b' where
    a': "broadcast_to a shp = Inr a'" and b': "broadcast_to b shp = Inr b'"
    and r: "r = \<lparr>shape = shp, data = map2 f (data a') (data b')\<rparr>"
    by (auto simp: np_binop_def bind_err_Inr_iff split: option.splits)
  from assms(4) r obtain u v where "(u, v) \<in> set (zip (data a') (data b'))" "x = f u v"
    by auto
  then have "u \<in> set (data a')" "v \<in> set (data b')" "x = f u v"
    by (auto dest: set_zip_leftD set_zip_rightD)
  then show ?thesis
    using data_broadcast_subset[OF assms(1) a'] data_broadcast_subset[OF assms(2) b'] by blast
qed

lemma wf_np_binop: "np_binop f a b = Inr r \<Longrightarrow> wf_array r"
  by (auto simp: np_binop_def bind_err_Inr_iff wf_array_def dest!: broadcast_to_shape split: option.splits)

lemma data_np_iop:
  assumes "wf_array b" "np_iop f a b = Inr r" "x \<in> set (data r)"
  shows "\<exists>u \<in> set (data a). \<exists>v \<in> set (data b). x = f u v"
proof -
  from assms(2) obtain b' where
    b': "broadcast_to b (shape a) = Inr b'"
    and r: "r = \<lparr>shape = shape a, data = map2 f (data a) (data b')\<rparr>"
    by (auto simp: np_iop_def bind_err_Inr_iff)
  from assms(3) r obtain u v where "(u, v) \<in> set (zip (data a) (data b'))" "x = f u v"
    by auto
  then have "u \<in> set (data a)" "v \<in> set (data b')" "x = f u v"
    by (auto dest: set_zip_leftD set_zip_rightD)
  then show ?thesis
    using data_broadcast_subset[OF assms(1) b'] by blast
qed

lemma np_iop_shape: "np_iop f a b = Inr r \<Longrightarrow> shape r = shape a"
  by (auto simp: np_iop_def bind_err_Inr_iff)

lemma wf_np_iop: "wf_array a \<Longrightarrow> np_iop f a b = Inr r \<Longrightarrow> wf_array r"
  by (auto simp: np_iop_def bind_err_Inr_iff wf_array_def dest!: broadcast_to_shape)

lemma prod_list_map_nat:
  "\<forall>d \<in> set dims. 0 \<le> d \<Longrightarrow> prod_list (map nat dims) = nat (prod_list dims)"
proof (induction dims)
  case Nil
  then show ?case by simp
next
  case (Cons d ds)
  then show ?case by (simp add: nat_mult_distrib)
qed

lemma nonneg_of_ge_minus1: "(- 1 :: int) \<le> d \<Longrightarrow> d \<noteq> - 1 \<Longrightarrow> 0 \<le> d"
  by linarith

lemma prod_list_infer:
  assumes "\<forall>d \<in> set dims. - 1 \<le> d" "length (filter (\<lambda>d. d = - 1) dims) = 1"
  shows "prod_list (map (\<lambda>d. if d = - 1 then m else nat d) dims)
           = m * nat (prod_list (filter (\<lambda>d. d \<noteq> - 1) dims))"
  using assms
proof (induction dims)
  case Nil
  then show ?case by simp
next
  case (Cons d ds)
  show ?case
  proof (cases "d = - 1")
    case True
    with Cons.prems have none: "\<forall>x \<in> set ds. x \<noteq> - 1"
      by (simp add: filter_empty_conv)
    have nn: "\<forall>x \<in> set ds. 0 \<le> x"
    proof
      fix x assume x: "x \<in> set ds"
      then have "- 1 \<le> x" "x \<noteq> - 1" using Cons.prems(1) none by auto
      then show "0 \<le> x" by (rule nonneg_of_ge_minus1)
    qed
    have f: "filter (\<lambda>d. d \<noteq> - 1) ds = ds" using none by (simp add: filter_id_conv)
    have m: "map (\<lambda>d. if d = - 1 then m else nat d) ds = map nat ds"
      using none by simp
    show ?thesis using True f prod_list_map_nat[OF nn] by (simp add: m)
  next
    case False
    with Cons.prems have d: "0 \<le> d" by (simp add: nonneg_of_ge_minus1)
    have "\<forall>x \<in> set (filter (\<lambda>d. d \<noteq> - 1) ds). 0 \<le> x"
      using Cons.prems(1) by (auto intro: nonneg_of_ge_minus1)
    then have p: "0 \<le> prod_list (filter (\<lambda>d. d \<noteq> - 1) ds)"
      by (intro prod_list_nonneg) auto
    have ih: "prod_list (map (\<lambda>d. if d = - 1 then m else nat d) ds)
           = m * nat (prod_list (filter (\<lambda>d. d \<noteq> - 1) ds))"
      using Cons.IH Cons.prems False by simp
    show ?thesis using False d p ih by (simp add: nat_mult_distrib)
  qed
qed

lemma reshape_dims_prod:
  assumes a: "reshape_dims n dims = Inr shp"
  shows "prod_list shp = n"
proof -
  have nex: "\<not> list_ex (\<lambda>d. d < - 1) dims"
    using a by (auto simp: reshape_dims_def split: if_splits)
  then have ge: "\<forall>d \<in> set dims. - 1 \<le> d"
    by (auto simp: list_ex_iff not_less)
  have cnt: "\<not> 1 < length (filter (\<lambda>d. d = - 1) dims)"
    using a nex by (auto simp: reshape_dims_def split: if_splits)
  show ?thesis
  proof (cases "List.member dims (- 1)")
    case True
    then have "filter (\<lambda>d. d = - 1) dims \<noteq> []"
      by (auto simp: filter_empty_conv)
    then have "length (filter (\<lambda>d. d = - 1) dims) \<noteq> 0" by simp
    with cnt have one: "length (filter (\<lambda>d. d = - 1) dims) = 1" by linarith
    let ?known = "nat (prod_list (filter (\<lambda>d. d \<noteq> - 1) dims))"
    from a True nex cnt have k: "?known \<noteq> 0" "n mod ?known = 0"
      and shp: "shp = map (\<lambda>d. if d = - 1 then n div ?known else nat d) dims"
      by (auto simp: reshape_dims_def Let_def split: if_splits)
    show ?thesis unfolding shp prod_list_infer[OF ge one] using k by auto
  next
    case False
    have nn: "\<forall>d \<in> set dims. 0 \<le> d"
    proof
      fix x assume x: "x \<in> set dims"
      then have "- 1 \<le> x" "x \<noteq> - 1" using ge False by auto
      then show "0 \<le> x" by (rule nonneg_of_ge_minus1)
    qed
    from a False nex cnt have "nat (prod_list dims) = n" "shp = map nat dims"
      by (auto simp: reshape_dims_def split: if_splits)
    then show ?thesis using prod_list_map_nat[OF nn] by simp
  qed
qed

lemma wf_reshape: "wf_array t \<Longrightarrow> reshape t dims = Inr r \<Longrightarrow> wf_array r"
  by (auto simp: reshape_def bind_err_Inr_iff wf_array_def reshape_dims_prod)

lemma wf_reshape_to: "wf_array t \<Longrightarrow> reshape_to t shp = Inr r \<Longrightarrow> wf_array r"
  by (simp add: reshape_to_def wf_reshape)

lemma reshape_to_data: "reshape_to t shp = Inr r \<Longrightarrow> data r = data t"
  by (simp add: reshape_to_def reshape_data)

subsection \<open>Entries by index\<close>

lemma data_tabulate_nth:
  "k < prod_list shp \<Longrightarrow> data (tabulate shp f) ! k = f (unravel shp k)"
  by (simp add: tabulate_def)

lemma length_data_tabulate [simp]: "length (data (tabulate shp f)) = prod_list shp"
  by (simp add: tabulate_def)

lemma item_broadcast_to:
  "broadcast_to t shp = Inr r \<Longrightarrow> valid_idx shp idx \<Longrightarrow> item r idx = item t (bc_src (shape t) idx)"
  by (auto simp: broadcast_to_def item_tabulate split: if_splits)

lemma bc_src_same: "valid_idx shp idx \<Longrightarrow> bc_src shp idx = idx"
proof (induction shp arbitrary: idx)
  case Nil
  then show ?case by (simp add: bc_src_def)
next
  case (Cons n ns)
  then obtain i "is" where idx: "idx = i # is" "i < n" "valid_idx ns is"
    by (auto simp: valid_idx_Cons)
  have "length is = length ns" using valid_idx_length[OF idx(3)] .
  then show ?case using Cons.IH[OF idx(3)] idx by (auto simp: bc_src_def)
qed

lemma bc_src_stretch:
  "valid_idx ns is \<Longrightarrow> bc_src (1 # ns) (i # is) = 0 # is"
  using bc_src_same[of ns "is"] valid_idx_length[of ns "is"] by (simp add: bc_src_def)

lemma bc_ok_refl [simp]: "bc_ok shp shp"
  by (simp add: bc_ok_def list_all2_same)

lemma bc_ok_stretch [simp]: "bc_ok (1 # ns) (n # ns)"
  by (simp add: bc_ok_def list_all2_same)

lemma bc_dims_same [simp]: "bc_dims shp shp = Some shp"
  by (induction shp) auto

lemma broadcast_shapes_same [simp]: "broadcast_shapes shp shp = Some shp"
  by (simp add: broadcast_shapes_def)

lemma broadcast_shapes_stretch [simp]: "broadcast_shapes (1 # ns) (n # ns) = Some (n # ns)"
  by (auto simp: broadcast_shapes_def)

lemma broadcast_shapes_stretch_Suc [simp]:
  "broadcast_shapes (Suc 0 # ns) (n # ns) = Some (n # ns)"
  using broadcast_shapes_stretch[of ns n] by simp

lemma bc_src_stretch_Suc: "valid_idx ns is \<Longrightarrow> bc_src (Suc 0 # ns) (i # is) = 0 # is"
  using bc_src_stretch[of ns "is" i] by simp

lemma np_binop_shape:
  "np_binop f a b = Inr r \<Longrightarrow> broadcast_shapes (shape a) (shape b) = Some (shape r)"
  by (auto simp: np_binop_def bind_err_Inr_iff split: option.splits)

lemma item_np_binop:
  assumes "np_binop f a b = Inr r" "valid_idx (shape r) idx"
  shows "item r idx = f (item a (bc_src (shape a) idx)) (item b (bc_src (shape b) idx))"
proof -
  from assms(1) obtain shp a' b' where
    a': "broadcast_to a shp = Inr a'" and b': "broadcast_to b shp = Inr b'"
    and r: "r = \<lparr>shape = shp, data = map2 f (data a') (data b')\<rparr>"
    by (auto simp: np_binop_def bind_err_Inr_iff split: option.splits)
  have v: "valid_idx shp idx" using assms(2) r by simp
  have k: "ravel shp idx < prod_list shp" using ravel_less[OF v] .
  have la: "length (data a') = prod_list shp" "shape a' = shp"
    using broadcast_to_shape[OF a'] by (auto simp: wf_array_def)
  have lb: "length (data b') = prod_list shp" "shape b' = shp"
    using broadcast_to_shape[OF b'] by (auto simp: wf_array_def)
  have "item r idx = f (item a' idx) (item b' idx)"
    using k la lb by (simp add: r item_def)
  then show ?thesis using item_broadcast_to[OF a' v] item_broadcast_to[OF b' v] by simp
qed

lemma item_np_iop:
  assumes "np_iop f a b = Inr r" "wf_array a" "valid_idx (shape a) idx"
  shows "item r idx = f (item a idx) (item b (bc_src (shape b) idx))"
proof -
  from assms(1) obtain b' where
    b': "broadcast_to b (shape a) = Inr b'"
    and r: "r = \<lparr>shape = shape a, data = map2 f (data a) (data b')\<rparr>"
    by (auto simp: np_iop_def bind_err_Inr_iff)
  have k: "ravel (shape a) idx < prod_list (shape a)" using ravel_less[OF assms(3)] .
  have lb: "length (data b') = prod_list (shape a)" "shape b' = shape a"
    using broadcast_to_shape[OF b'] by (auto simp: wf_array_def)
  have "item r idx = f (item a idx) (item b' idx)"
    using k lb assms(2) by (simp add: r item_def wf_array_def)
  then show ?thesis using item_broadcast_to[OF b' assms(3)] by simp
qed

lemma np_sum_shape:
  "np_sum_keepdims t ax = Inr r \<Longrightarrow> shape r = (shape t)[ax := 1]"
  by (auto simp: np_sum_keepdims_def split: if_splits)

lemma item_np_sum:
  "np_sum_keepdims t ax = Inr r \<Longrightarrow> valid_idx ((shape t)[ax := 1]) idx \<Longrightarrow>
     item r idx = fsum (map (\<lambda>i. item t (idx[ax := i])) [0..<shape t ! ax])"
  by (auto simp: np_sum_keepdims_def item_tabulate split: if_splits)

lemma item_full: "valid_idx shp idx \<Longrightarrow> item (full shp c) idx = c"
  by (simp add: item_def full_def ravel_less)

lemma item_ones_like: "valid_idx (shape t) idx \<Longrightarrow> item (ones_like t) idx = Fin 1"
  by (simp add: ones_like_def item_full)

lemma shape_ones_like [simp]: "shape (ones_like t) = shape t"
  by (simp add: ones_like_def full_def)

lemma item_map_array:
  "wf_array t \<Longrightarrow> valid_idx (shape t) idx \<Longrightarrow> item (map_array f t) idx = f (item t idx)"
  by (simp add: item_def map_array_def wf_array_def ravel_less)

lemma shape_map_array [simp]: "shape (map_array f t) = shape t"
  by (simp add: map_array_def)

lemma wf_map_array [simp]: "wf_array (map_array f t) = wf_array t"
  by (simp add: map_array_def wf_array_def)

lemma fsum_Fin_aux: "foldl fadd (Fin z) (map (\<lambda>i. Fin (q i)) xs) = Fin (z + sum_list (map q xs))"
  by (induction xs arbitrary: z) (simp_all add: add.assoc)

lemma fsum_Fin: "fsum (map (\<lambda>i. Fin (q i)) xs) = Fin (sum_list (map q xs))"
  using fsum_Fin_aux[of 0 q xs] by (simp add: fsum_def)

lemma getitem_shape: "getitem t ixs = Inr r \<Longrightarrow> sel_shape (shape t) ixs = Inr (shape r)"
  by (auto simp: getitem_def bind_err_Inr_iff)

lemma item_getitem:
  "getitem t ixs = Inr r \<Longrightarrow> valid_idx (shape r) idx \<Longrightarrow>
     item r idx = item t (sel_src (shape t) ixs idx)"
  by (auto simp: getitem_def bind_err_Inr_iff item_tabulate)

lemma valid_sel_dst:
  "sel_shape shp ixs = Inr shp' \<Longrightarrow> valid_idx shp idx \<Longrightarrow> in_sel shp ixs idx \<Longrightarrow>
     valid_idx shp' (sel_dst shp ixs idx)"
proof (induction shp ixs arbitrary: shp' idx rule: sel_shape.induct)
  case (1 shp)
  then show ?case by (cases shp; cases idx) auto
next
  case (2 i "is")
  then show ?case by simp
next
  case (3 n ns i "is")
  from 3(3) obtain j js where idx: "idx = j # js" "j < n" "valid_idx ns js"
    by (auto simp: valid_idx_Cons)
  show ?case using 3 idx by (auto split: if_splits)
next
  case (4 n ns a b "is")
  from 4(2) obtain r where r: "sel_shape ns is = Inr r" "shp' = slice_len n a b # r"
    by (auto simp: bind_err_Inr_iff)
  from 4(3) obtain j js where idx: "idx = j # js" "j < n" "valid_idx ns js"
    by (auto simp: valid_idx_Cons)
  show ?case using 4(1)[OF r(1) idx(3)] 4(4) idx r by auto
qed

lemma upditem_shape: "upditem f t ixs v = Inr r \<Longrightarrow> shape r = shape t \<and> wf_array r"
  by (auto simp: upditem_def bind_err_Inr_iff)

lemma item_upditem:
  assumes "upditem f t ixs v = Inr r" "valid_idx (shape t) idx"
  shows "item r idx =
     (if in_sel (shape t) ixs idx
      then f (item t idx) (item v (bc_src (shape v) (sel_dst (shape t) ixs idx)))
      else item t idx)"
proof -
  from assms(1) obtain shp v' where
    shp: "sel_shape (shape t) ixs = Inr shp" and v': "broadcast_to v shp = Inr v'"
    and r: "r = tabulate (shape t) (\<lambda>idx.
       if in_sel (shape t) ixs idx then f (item t idx) (item v' (sel_dst (shape t) ixs idx))
       else item t idx)"
    by (auto simp: upditem_def bind_err_Inr_iff)
  show ?thesis
  proof (cases "in_sel (shape t) ixs idx")
    case True
    have "valid_idx shp (sel_dst (shape t) ixs idx)"
      using valid_sel_dst[OF shp assms(2) True] .
    from item_broadcast_to[OF v' this] show ?thesis
      using True assms(2) by (simp add: r item_tabulate)
  next
    case False
    then show ?thesis using assms(2) by (simp add: r item_tabulate)
  qed
qed

lemma strip_leading_ones_id: "length shp \<le> r \<Longrightarrow> strip_leading_ones r shp = shp"
  by (cases shp) simp_all

lemma sel_shape_rank: "sel_shape shp ixs = Inr shp' \<Longrightarrow> length shp' \<le> length shp"
proof (induction shp ixs arbitrary: shp' rule: sel_shape.induct)
  case (1 shp)
  then show ?case by simp
next
  case (2 i "is")
  then show ?case by simp
next
  case (3 n ns i "is")
  then show ?case by (auto split: if_splits intro: le_SucI)
next
  case (4 n ns a b "is")
  then show ?case by (auto simp: bind_err_Inr_iff)
qed

text \<open>An assigned value whose rank does not exceed the rank of the selection is not changed.\<close>

lemma item_setitem:
  assumes "setitem t ixs v = Inr r" "valid_idx (shape t) idx"
    and "sel_shape (shape t) ixs = Inr shp" "length (shape v) \<le> length shp"
  shows "item r idx =
     (if in_sel (shape t) ixs idx
      then item v (bc_src (shape v) (sel_dst (shape t) ixs idx))
      else item t idx)"
proof -
  have "v\<lparr>shape := strip_leading_ones (length shp) (shape v)\<rparr> = v"
    using assms(4) by (simp add: strip_leading_ones_id)
  then have "upditem (\<lambda>old new. new) t ixs v = Inr r"
    using assms(1,3) by (simp add: setitem_def)
  from item_upditem[OF this assms(2)] show ?thesis .
qed

lemma setitem_shape: "setitem t ixs v = Inr r \<Longrightarrow> shape r = shape t \<and> wf_array r"
  by (auto simp: setitem_def bind_err_Inr_iff dest: upditem_shape)

lemma item_set_where_nan:
  "wf_array t \<Longrightarrow> valid_idx (shape t) idx \<Longrightarrow>
     item (set_where_nan t c) idx = (if item t idx = NaN then c else item t idx)"
  by (simp add: set_where_nan_def item_map_array fne_def)

lemma set_where_nan_no_nan: "c \<noteq> NaN \<Longrightarrow> list_all (\<lambda>x. x \<noteq> NaN) (data (set_where_nan t c))"
  by (auto simp: set_where_nan_def map_array_def list_all_iff fne_def)

section \<open>Regret update\<close>

lemma bind_err_InrE:
  assumes "bind_err m f = Inr y"
  obtains x where "m = Inr x" "f x = Inr y"
  using assms by (auto simp: bind_err_Inr_iff)

lemma is_fin_Fin [simp]: "is_fin (Fin a)"
  by (simp add: is_fin_def)

lemma is_fin_fadd: "is_fin a \<Longrightarrow> is_fin b \<Longrightarrow> is_fin (fadd a b)"
  by (cases a; cases b) (simp_all add: is_fin_def)

lemma is_fin_fsub: "is_fin a \<Longrightarrow> is_fin b \<Longrightarrow> is_fin (fsub a b)"
  by (cases a; cases b) (simp_all add: is_fin_def fsub_def)

lemma is_fin_fmul: "is_fin a \<Longrightarrow> is_fin b \<Longrightarrow> is_fin (fmul a b)"
  by (cases a; cases b) (simp_all add: is_fin_def)

lemma fclip_zero:
  assumes "is_fin x" "fle (Fin 0) hi"
  shows "is_fin (fclip (Fin 0) hi x) \<and> fle (Fin 0) (fclip (Fin 0) hi x)"
  using assms by (cases x; cases hi) (auto simp: is_fin_def fclip_def fmaximum_def fminimum_def)

lemma data_ones_like: "x \<in> set (data (ones_like t)) \<Longrightarrow> x = Fin 1"
  by (simp add: ones_like_def full_def)

lemma wf_ones_like [simp]: "wf_array (ones_like t)"
  by (simp add: ones_like_def full_def wf_array_def)

lemma regrets_step_result:
  assumes step: "regrets_step st bs d (g, ls) = Inr (g', ls')"
    and ok: "list_all regret_inputs_ok ls"
    and mx: "fle (Fin 0) (max_number st)"
  shows "d < length ls \<and> (\<exists>r. ls' = ls[d := (ls ! d)\<lparr>regrets_data := r\<rparr>] \<and> all_fin r \<and> all_nonneg r)"
proof -
  from step obtain l cr cur parent bt gn sl pin1 pin2 pin3 cur2 r gb where
    l: "get_layer ls d = Inr l"
    and cr: "getitem (cfvs_data l) (player_ix (acting_player l)) = Inr cr"
    and cur: "reshape_to cr (shape (current_regrets_data l)) = Inr cur"
    and parent: "get_layer ls (d - 1) = Inr parent"
    and sl: "getitem (cfvs_data parent)
               [Slice (Some bt) None, Slice None (Some gn), All, All, Idx (acting_player l), All] = Inr sl"
    and pin1: "transpose_nd sl [0, 2, 1, 3, 4] = Inr pin1"
    and pin2: "reshape pin1 [1, gb, - 1, bs, hand_count st] = Inr pin2"
    and pin3: "np_binop fmul pin2 (ones_like cur) = Inr pin3"
    and cur2: "np_iop fsub cur pin3 = Inr cur2"
    and r: "np_iop fadd (regrets_data l) cur2 = Inr r"
    and ls': "ls' = ls[d := l\<lparr>regrets_data := np_clip r (Fin 0) (max_number st)\<rparr>]"
    by (auto simp: regrets_step_def bind_err_Inr_iff split: prod.splits)
  have d: "d < length ls" and ld: "l = ls ! d"
    using l by (auto simp: get_layer_def split: if_splits)
  have pd: "d - 1 < length ls" "parent = ls ! (d - 1)"
    using parent by (auto simp: get_layer_def split: if_splits)
  have okl: "regret_inputs_ok l" using ok d ld by (simp add: list_all_length)
  have okp: "regret_inputs_ok parent" using ok pd by (simp add: list_all_length)
  have fin_cur: "\<forall>x \<in> set (data cur). is_fin x"
    using data_getitem_subset[OF _ cr] reshape_to_data[OF cur] okl
    by (auto simp: regret_inputs_ok_def all_fin_def list_all_iff)
  have wf_cur: "wf_array cur"
    using wf_reshape_to[OF wf_getitem[OF cr] cur] .
  have fin_pin2: "\<forall>x \<in> set (data pin2). is_fin x"
    using data_getitem_subset[OF _ sl] data_transpose_subset[OF wf_getitem[OF sl] pin1]
      reshape_data[OF pin2] okp
    by (auto simp: regret_inputs_ok_def all_fin_def list_all_iff)
  have wf_pin2: "wf_array pin2"
    using wf_reshape[OF wf_transpose[OF pin1] pin2] .
  have fin_pin3: "\<forall>x \<in> set (data pin3). is_fin x"
  proof
    fix x assume "x \<in> set (data pin3)"
    from data_np_binop[OF wf_pin2 wf_ones_like pin3 this]
    obtain u v where "u \<in> set (data pin2)" "v \<in> set (data (ones_like cur))" "x = fmul u v"
      by auto
    then show "is_fin x" using fin_pin2 data_ones_like[of v cur]
      by (auto intro!: is_fin_fmul)
  qed
  have fin_cur2: "\<forall>x \<in> set (data cur2). is_fin x"
  proof
    fix x assume "x \<in> set (data cur2)"
    from data_np_iop[OF wf_np_binop[OF pin3] cur2 this]
    obtain u v where "u \<in> set (data cur)" "v \<in> set (data pin3)" "x = fsub u v"
      by auto
    then show "is_fin x" using fin_cur fin_pin3 by (auto intro!: is_fin_fsub)
  qed
  have fin_r: "\<forall>x \<in> set (data r). is_fin x"
  proof
    fix x assume "x \<in> set (data r)"
    from data_np_iop[OF wf_np_iop[OF wf_cur cur2] r this]
    obtain u v where "u \<in> set (data (regrets_data l))" "v \<in> set (data cur2)" "x = fadd u v"
      by auto
    then show "is_fin x" using fin_cur2 okl
      by (auto intro!: is_fin_fadd simp: regret_inputs_ok_def all_fin_def list_all_iff)
  qed
  let ?r = "np_clip r (Fin 0) (max_number st)"
  have "all_fin ?r \<and> all_nonneg ?r"
    using fin_r fclip_zero[OF _ mx]
    by (auto simp: all_fin_def all_nonneg_def np_clip_def map_array_def list_all_iff)
  then show ?thesis using d ls' ld by blast
qed


lemma regrets_loop:
  assumes "for_each ds (regrets_step st bs) (g, ls) = Inr (g', ls')"
    and "list_all regret_inputs_ok ls"
    and "fle (Fin 0) (max_number st)"
  shows "length ls' = length ls \<and> list_all regret_inputs_ok ls' \<and>
         (\<forall>d. d \<in> set ds \<longrightarrow> d < length ls) \<and>
         (\<forall>d < length ls. d \<in> set ds \<or> all_nonneg (regrets_data (ls ! d))
              \<longrightarrow> all_nonneg (regrets_data (ls' ! d)))"
  using assms
proof (induction ds arbitrary: g ls)
  case Nil
  then show ?case by simp
next
  case (Cons e es)
  from Cons.prems(1) obtain g1 ls1 where
    step: "regrets_step st bs e (g, ls) = Inr (g1, ls1)"
    and rest: "for_each es (regrets_step st bs) (g1, ls1) = Inr (g', ls')"
    by (auto simp: bind_err_Inr_iff)
  from regrets_step_result[OF step Cons.prems(2,3)] obtain r where
    e: "e < length ls" and ls1: "ls1 = ls[e := (ls ! e)\<lparr>regrets_data := r\<rparr>]"
    and r: "all_fin r" "all_nonneg r"
    by auto
  have oke: "regret_inputs_ok (ls ! e)" using Cons.prems(2) e by (simp add: list_all_length)
  have ok1: "list_all regret_inputs_ok ls1"
    unfolding ls1 list_all_length
  proof (intro allI impI)
    fix n assume "n < length (ls[e := (ls ! e)\<lparr>regrets_data := r\<rparr>])"
    then show "regret_inputs_ok (ls[e := (ls ! e)\<lparr>regrets_data := r\<rparr>] ! n)"
      using Cons.prems(2) oke r(1)
      by (cases "n = e") (auto simp: list_all_length regret_inputs_ok_def)
  qed
  note ih = Cons.IH[OF rest ok1 Cons.prems(3)]
  have len1: "length ls1 = length ls" by (simp add: ls1)
  show ?case
  proof (intro conjI allI impI)
    show "length ls' = length ls" using ih len1 by simp
    show "list_all regret_inputs_ok ls'" using ih by simp
  next
    fix d assume "d \<in> set (e # es)"
    then show "d < length ls" using e ih len1 by auto
  next
    fix d assume d: "d < length ls"
      and h: "d \<in> set (e # es) \<or> all_nonneg (regrets_data (ls ! d))"
    have "d \<in> set es \<or> all_nonneg (regrets_data (ls1 ! d))"
    proof (cases "d = e")
      case True
      then show ?thesis using e r(2) by (simp add: ls1)
    next
      case False
      then show ?thesis using h by (auto simp: ls1)
    qed
    then show "all_nonneg (regrets_data (ls' ! d))" using ih d len1 by auto
  qed
qed

section \<open>Regret matching\<close>

lemma fclip_range:
  assumes "x \<noteq> NaN" "e \<le> m"
  shows "\<exists>c. fclip (Fin e) (Fin m) x = Fin c \<and> e \<le> c \<and> c \<le> m"
  using assms by (cases x) (auto simp: fclip_def fmaximum_def fminimum_def)

lemma current_strategies_layer_entries:
  assumes run: "current_strategies_layer st (Fin e) l = Inr l'"
    and ok: "strategy_inputs_ok l"
    and eps: "0 < e" "max_number st = Fin m" "e \<le> m"
    and shp: "shape (regrets_data l) = A # rest"
    and state: "valid_idx rest state"
    and act: "\<exists>a<A. item (empty_action_mask l) (a # state) = Fin 1"
  shows "\<exists>sum p. item (regrets_sum l') (0 # state) = Fin sum \<and> e \<le> sum
      \<and> (\<forall>a<A. item (current_strategy_data l') (a # state) = Fin (p a) \<and> 0 \<le> p a
            \<and> (item (empty_action_mask l) (a # state) = Fin 0 \<longrightarrow> p a = 0))
      \<and> (\<Sum>a<A. p a) = 1"
proof -
  let ?pr = "np_clip (regrets_data l) (Fin e) (Fin m)"
  from run obtain pr2 rs den cs where
    pr2: "np_iop fmul ?pr (empty_action_mask l) = Inr pr2"
    and rs: "np_sum_keepdims pr2 0 = Inr rs"
    and den: "np_binop fmul rs (ones_like (current_strategy_data l)) = Inr den"
    and cs: "np_binop fdiv pr2 den = Inr cs"
    and l': "l' = l\<lparr>positive_regrets_data := pr2, regrets_sum := rs, current_strategy_data := cs\<rparr>"
    by (auto simp: current_strategies_layer_def Let_def bind_err_Inr_iff eps)
  from ok have wfr: "wf_array (regrets_data l)"
    and nonan: "\<forall>x \<in> set (data (regrets_data l)). x \<noteq> NaN"
    and wfm: "wf_array (empty_action_mask l)"
    and bin: "\<forall>x \<in> set (data (empty_action_mask l)). x = Fin 0 \<or> x = Fin 1"
    and shm: "shape (empty_action_mask l) = A # rest"
    and shs: "shape (current_strategy_data l) = A # rest"
    by (auto simp: strategy_inputs_ok_def list_all_iff shp)
  have shpr: "shape ?pr = A # rest" "wf_array ?pr" using shp wfr by (simp_all add: np_clip_def)
  have shpr2: "shape pr2 = A # rest" using np_iop_shape[OF pr2] shpr by simp
  have shrs: "shape rs = 1 # rest" using np_sum_shape[OF rs] shpr2 by simp
  have shden: "shape den = A # rest" using np_binop_shape[OF den] shrs shs by simp
  have shcs: "shape cs = A # rest" using np_binop_shape[OF cs] shpr2 shden by simp
  have v: "valid_idx (A # rest) (a # state)" if "a < A" for a using that state by simp
  text \<open>the clipped and masked regrets\<close>
  define q where "q a = (case item pr2 (a # state) of Fin r \<Rightarrow> r | _ \<Rightarrow> 0)" for a
  have pr2_item: "item pr2 (a # state) = Fin (q a) \<and> 0 \<le> q a
      \<and> (item (empty_action_mask l) (a # state) = Fin 0 \<longrightarrow> q a = 0)
      \<and> (item (empty_action_mask l) (a # state) = Fin 1 \<longrightarrow> e \<le> q a)" if a: "a < A" for a
  proof -
    have "item (regrets_data l) (a # state) \<in> set (data (regrets_data l))"
      using item_mem[OF wfr] v[OF a] shp by simp
    then have "item (regrets_data l) (a # state) \<noteq> NaN" using nonan by blast
    from fclip_range[OF this eps(3)] obtain c where
      c: "fclip (Fin e) (Fin m) (item (regrets_data l) (a # state)) = Fin c" "e \<le> c"
      by auto
    have "item (empty_action_mask l) (a # state) \<in> set (data (empty_action_mask l))"
      using item_mem[OF wfm] v[OF a] shm by simp
    then have mk: "item (empty_action_mask l) (a # state) = Fin 0
                 \<or> item (empty_action_mask l) (a # state) = Fin 1"
      using bin by blast
    have "item pr2 (a # state)
            = fmul (item ?pr (a # state)) (item (empty_action_mask l) (a # state))"
      using item_np_iop[OF pr2 shpr(2)] v[OF a] shpr(1) shm bc_src_same[OF v[OF a]] by simp
    also have "item ?pr (a # state) = Fin c"
      using item_map_array[OF wfr, of "a # state" "fclip (Fin e) (Fin m)"] v[OF a] c
      by (simp add: np_clip_def shp)
    finally have "item pr2 (a # state) = fmul (Fin c) (item (empty_action_mask l) (a # state))" .
    then show ?thesis using mk c(2) eps(1) by (auto simp: q_def)
  qed
  text \<open>their sum over the actions\<close>
  have "item rs (0 # state) = fsum (map (\<lambda>a. item pr2 (a # state)) [0..<A])"
    using item_np_sum[OF rs] shpr2 state by simp
  also have "map (\<lambda>a. item pr2 (a # state)) [0..<A] = map (\<lambda>a. Fin (q a)) [0..<A]"
    using pr2_item by simp
  finally have rs_item: "item rs (0 # state) = Fin (sum_list (map q [0..<A]))"
    by (simp add: fsum_Fin)
  define S where "S = (\<Sum>a<A. q a)"
  have S: "sum_list (map q [0..<A]) = S"
    by (simp add: S_def sum_list_sum_nth atLeast0LessThan)
  from act obtain a0 where a0: "a0 < A" "item (empty_action_mask l) (a0 # state) = Fin 1"
    by auto
  have "q a0 \<le> S" unfolding S_def
    using pr2_item a0(1) by (intro member_le_sum) auto
  then have Spos: "e \<le> S" using pr2_item[OF a0(1)] a0(2) by simp
  text \<open>the denominator and the strategy\<close>
  have den_item: "item den (a # state) = Fin S" if a: "a < A" for a
  proof -
    have "item den (a # state) = fmul (item rs (bc_src (1 # rest) (a # state)))
            (item (ones_like (current_strategy_data l)) (bc_src (A # rest) (a # state)))"
      using item_np_binop[OF den] v[OF a] shden shrs shs by simp
    then show ?thesis
      using bc_src_stretch_Suc[OF state] bc_src_same[OF v[OF a]] rs_item S
        item_ones_like[of "current_strategy_data l" "a # state"] v[OF a] shs by simp
  qed
  have cs_item: "item cs (a # state) = Fin (q a / S)" if a: "a < A" for a
  proof -
    have "item cs (a # state) = fdiv (item pr2 (a # state)) (item den (a # state))"
      using item_np_binop[OF cs] v[OF a] shcs shpr2 shden bc_src_same[OF v[OF a]] by simp
    then show ?thesis using pr2_item[OF a] den_item[OF a] Spos eps(1) by simp
  qed
  have one: "(\<Sum>a<A. q a / S) = 1"
    using Spos eps(1) by (simp add: sum_divide_distrib[symmetric] S_def[symmetric])
  have ent: "\<forall>a<A. item (current_strategy_data l') (a # state) = Fin (q a / S) \<and> 0 \<le> q a / S
            \<and> (item (empty_action_mask l) (a # state) = Fin 0 \<longrightarrow> q a / S = 0)"
    using cs_item pr2_item Spos eps(1) by (auto simp: l')
  have sm: "item (regrets_sum l') (0 # state) = Fin S" using rs_item S by (simp add: l')
  show ?thesis
    apply (rule exI[of _ S])
    apply (rule exI[of _ "\<lambda>a. q a / S"])
    using one ent sm Spos apply simp
    done
qed

lemma current_strategies_loop:
  assumes "for_each ds (current_strategies_step st eps) ls = Inr ls'" "distinct ds"
  shows "length ls' = length ls
       \<and> (\<forall>d \<in> set ds. d < length ls \<and> current_strategies_layer st eps (ls ! d) = Inr (ls' ! d))
       \<and> (\<forall>d. d \<notin> set ds \<longrightarrow> ls' ! d = ls ! d)"
  using assms
proof (induction ds arbitrary: ls)
  case Nil
  then show ?case by simp
next
  case (Cons e es)
  from Cons.prems(1) obtain ls1 where
    step: "current_strategies_step st eps e ls = Inr ls1"
    and rest1: "for_each es (current_strategies_step st eps) ls1 = Inr ls'"
    by (auto simp: bind_err_Inr_iff)
  from step obtain l1 where
    e: "e < length ls" and l1: "current_strategies_layer st eps (ls ! e) = Inr l1"
    and ls1: "ls1 = ls[e := l1]"
    by (auto simp: current_strategies_step_def get_layer_def bind_err_Inr_iff split: if_splits)
  have rest: "for_each es (current_strategies_step st eps) (ls[e := l1]) = Inr ls'"
    using rest1 ls1 by simp
  have ih: "length ls' = length (ls[e := l1])
       \<and> (\<forall>d \<in> set es. d < length (ls[e := l1])
              \<and> current_strategies_layer st eps (ls[e := l1] ! d) = Inr (ls' ! d))
       \<and> (\<forall>d. d \<notin> set es \<longrightarrow> ls' ! d = ls[e := l1] ! d)"
    using Cons.IH[OF rest] Cons.prems(2) by simp
  have ne: "e \<notin> set es" using Cons.prems(2) by simp
  show ?case
  proof (intro conjI ballI allI impI)
    show "length ls' = length ls" using ih by simp
  next
    fix d assume d: "d \<in> set (e # es)"
    show "d < length ls" using d e ih by auto
    show "current_strategies_layer st eps (ls ! d) = Inr (ls' ! d)"
    proof (cases "d = e")
      case True
      then show ?thesis using ih ne e l1 by simp
    next
      case False
      then have "d \<in> set es" using d by simp
      then show ?thesis using ih False by auto
    qed
  next
    fix d assume "d \<notin> set (e # es)"
    then show "ls' ! d = ls ! d" using ih by auto
  qed
qed

section \<open>Normalisation of the average strategy\<close>

lemma foldl_fadd_NaN: "foldl fadd NaN xs = NaN"
  by (induction xs) simp_all

lemma foldl_fadd_mem_NaN: "NaN \<in> set xs \<Longrightarrow> foldl fadd z xs = NaN"
proof (induction xs arbitrary: z)
  case Nil
  then show ?case by simp
next
  case (Cons x xs)
  show ?case
  proof (cases "x = NaN")
    case True
    have "fadd z NaN = NaN" by (cases z) simp_all
    then show ?thesis using True by (simp add: foldl_fadd_NaN)
  next
    case False
    then show ?thesis using Cons by simp
  qed
qed

lemma fsum_NaN: "NaN \<in> set xs \<Longrightarrow> fsum xs = NaN"
  by (simp add: fsum_def foldl_fadd_mem_NaN)

lemma reach_value_cases:
  assumes "reach_value x"
  obtains "x = NaN" | r where "x = Fin r" "0 \<le> r"
  using assms by (cases x) (auto simp: reach_value_def is_fin_def)

lemma fdiv_NaN_right [simp]: "fdiv x NaN = NaN"
  by (cases x) simp_all

lemma fmul_one [simp]: "fmul x (Fin 1) = x"
  by (cases x) (simp_all add: inf_of_sign_def)

lemma normalize_average_strategies_entries:
  assumes run: "normalize_average_strategies_layer l = Inr l'"
    and wf: "wf_array (average_strategies_data l)"
    and shp: "shape (average_strategies_data l) = A # rest"
    and state: "valid_idx rest state"
    and a: "a < A"
  shows "item (regrets_sum l') (0 # state)
           = fsum (map (\<lambda>i. item (average_strategies_data l) (i # state)) [0..<A])"
    and "item (average_strategies_data l') (a # state) =
          (let x = fdiv (item (average_strategies_data l) (a # state))
                        (item (regrets_sum l') (0 # state))
           in if x = NaN then (if a = 0 then Fin 1 else Fin 0) else x)"
proof -
  let ?avg = "average_strategies_data l"
  from run obtain rs den a1 row a2 where
    rs: "np_sum_keepdims ?avg 0 = Inr rs"
    and den: "np_binop fmul rs (ones_like ?avg) = Inr den"
    and a1: "np_iop fdiv ?avg den = Inr a1"
    and row: "getitem a1 [Idx 0] = Inr row"
    and a2: "setitem a1 [Idx 0] (set_where_nan row (Fin 1)) = Inr a2"
    and l': "l' = l\<lparr>regrets_sum := rs, average_strategies_data := set_where_nan a2 (Fin 0)\<rparr>"
    by (auto simp: normalize_average_strategies_layer_def bind_err_Inr_iff)
  have v: "valid_idx (A # rest) (a # state)" using a state by simp
  have v0: "valid_idx (A # rest) (0 # state)" using a state by simp
  have shrs: "shape rs = 1 # rest" using np_sum_shape[OF rs] shp by simp
  have shden: "shape den = A # rest" using np_binop_shape[OF den] shrs shp by simp
  have sha1: "shape a1 = A # rest" "wf_array a1"
    using np_iop_shape[OF a1] wf_np_iop[OF wf a1] shp by simp_all
  have ok0: "idx_ok A 0" using a by (simp add: idx_ok_def)
  have shrow: "shape row = rest" "wf_array row"
    using getitem_shape[OF row] wf_getitem[OF row] sha1 ok0 by simp_all
  have sha2: "shape a2 = A # rest" "wf_array a2" using setitem_shape[OF a2] sha1 by simp_all
  have rs_item: "item rs (0 # state) = fsum (map (\<lambda>i. item ?avg (i # state)) [0..<A])"
    using item_np_sum[OF rs] shp state by simp
  then show "item (regrets_sum l') (0 # state)
           = fsum (map (\<lambda>i. item (average_strategies_data l) (i # state)) [0..<A])"
    by (simp add: l')
  have den_item: "item den (b # state) = item rs (0 # state)" if "b < A" for b
  proof -
    have vb: "valid_idx (A # rest) (b # state)" using that state by simp
    have "item den (b # state) = fmul (item rs (bc_src (1 # rest) (b # state)))
            (item (ones_like ?avg) (bc_src (A # rest) (b # state)))"
      using item_np_binop[OF den] vb shden shrs shp by simp
    then show ?thesis
      using bc_src_stretch_Suc[OF state] bc_src_same[OF vb]
        item_ones_like[of ?avg "b # state"] vb shp by simp
  qed
  have a1_item: "item a1 (b # state) = fdiv (item ?avg (b # state)) (item rs (0 # state))"
    if "b < A" for b
  proof -
    have vb: "valid_idx (A # rest) (b # state)" using that state by simp
    show ?thesis
      using item_np_iop[OF a1 wf] vb shp shden bc_src_same[OF vb] den_item[OF that] by simp
  qed
  have n0: "norm_idx A 0 = 0" by (simp add: norm_idx_def)
  have row_item: "item row state = item a1 (0 # state)"
    using item_getitem[OF row] shrow state sha1 n0 by simp
  have a2_item: "item a2 (a # state) =
      (if a = 0 then (if item a1 (0 # state) = NaN then Fin 1 else item a1 (0 # state))
       else item a1 (a # state))"
  proof -
    have ss: "sel_shape (shape a1) [Idx 0] = Inr rest" using sha1 ok0 by simp
    have ln: "length (shape (set_where_nan row (Fin 1))) \<le> length rest"
      using shrow by (simp add: set_where_nan_def)
    have va: "valid_idx (shape a1) (a # state)" using v sha1 by simp
    from item_setitem[OF a2 va ss ln] show ?thesis
      using sha1 n0 shrow state row_item
        bc_src_same[OF state] item_set_where_nan[OF shrow(2), of state "Fin 1"]
      by (simp add: set_where_nan_def)
  qed
  have "item (average_strategies_data l') (a # state) =
      (if item a2 (a # state) = NaN then Fin 0 else item a2 (a # state))"
    using item_set_where_nan[OF sha2(2), of "a # state" "Fin 0"] v sha2 by (simp add: l')
  then show "item (average_strategies_data l') (a # state) =
          (let x = fdiv (item (average_strategies_data l) (a # state))
                        (item (regrets_sum l') (0 # state))
           in if x = NaN then (if a = 0 then Fin 1 else Fin 0) else x)"
    using a2_item a1_item[OF a] a1_item[of 0] a by (auto simp: l' Let_def)
qed

section \<open>Reshaping to a given shape\<close>

lemma reshape_rank: "reshape t dims = Inr r \<Longrightarrow> length (shape r) = length dims"
  by (auto simp: reshape_def reshape_dims_def bind_err_Inr_iff Let_def split: if_splits)

lemma reshape_dims_nat:
  "reshape_dims n (map int shp) = (if prod_list shp = n then Inr shp else Inl ValueError)"
proof -
  have a: "\<not> list_ex (\<lambda>d. d < - 1) (map int shp)" by (simp add: list_ex_iff)
  have b: "filter (\<lambda>d. d = - 1) (map int shp) = []" by (simp add: filter_empty_conv)
  have c: "\<not> List.member (map int shp) (- 1)" by auto
  have d: "map nat (map int shp) = shp" by (simp add: comp_def)
  have e: "prod_list (map int shp) = int (prod_list shp)" by (induction shp) simp_all
  show ?thesis unfolding reshape_dims_def using a b c d e by simp
qed

lemma reshape_to_shape: "reshape_to t shp = Inr r \<Longrightarrow> shape r = shp"
  by (auto simp: reshape_to_def reshape_def reshape_dims_nat bind_err_Inr_iff split: if_splits)

section \<open>What a method leaves unchanged\<close>

lemma same_run_refl [simp]: "same_run s s"
  by (simp add: same_run_def)

lemma same_run_trans: "same_run s t \<Longrightarrow> same_run t u \<Longrightarrow> same_run s u"
  by (simp add: same_run_def)

lemma for_each_append:
  "for_each (xs @ ys) body s = bind_err (for_each xs body s) (for_each ys body)"
proof (induction xs arbitrary: s)
  case Nil
  then show ?case by simp
next
  case (Cons x xs)
  then show ?case by (cases "body x s") simp_all
qed

lemma for_each_same_run:
  assumes "\<And>d s s'. body d s = Inr s' \<Longrightarrow> same_run s s'"
    and "for_each ds body s = Inr s'"
  shows "same_run s s'"
  using assms(2)
proof (induction ds arbitrary: s)
  case Nil
  then show ?case by simp
next
  case (Cons d ds)
  then obtain s1 where "body d s = Inr s1" "for_each ds body s1 = Inr s'"
    by (auto simp: bind_err_Inr_iff)
  then show ?case using assms(1) Cons.IH same_run_trans by blast
qed

lemma with_layers_same_run: "with_layers f s = Inr s' \<Longrightarrow> same_run s s'"
  by (auto simp: with_layers_def bind_err_Inr_iff same_run_def)

lemma with_layers_enter:
  "with_layers f (enter ev s) = Inr s' \<Longrightarrow>
     history s' = history s @ [ev] \<and> same_run (enter ev s) s'"
  using with_layers_same_run[of f "enter ev s" s'] by (simp add: same_run_def enter_def)

lemma with_layers_entered: "with_layers f (enter ev s) = Inr s' \<Longrightarrow> entered ev s s'"
  using with_layers_same_run[of f "enter ev s" s']
  by (simp add: same_run_def enter_def entered_def)

lemma entered_enter [simp]: "entered ev s (enter ev s)"
  by (simp add: entered_def enter_def)

lemma entered_same_run: "entered ev s t \<Longrightarrow> same_run t u \<Longrightarrow> entered ev s u"
  by (simp add: entered_def same_run_def)

lemma compute_current_strategies_entered:
  "compute_current_strategies st s = Inr s' \<Longrightarrow> entered Enter_compute_current_strategies s s'"
  unfolding compute_current_strategies_def by (rule with_layers_entered)

lemma compute_ranges_entered:
  "compute_ranges st s = Inr s' \<Longrightarrow> entered Enter_compute_ranges s s'"
  unfolding compute_ranges_def by (rule with_layers_entered)

lemma compute_update_average_strategies_entered:
  "compute_update_average_strategies st i s = Inr s' \<Longrightarrow>
     entered (Enter_compute_update_average_strategies i) s s'"
  by (auto simp: compute_update_average_strategies_def Let_def
      dest: with_layers_entered split: if_splits)

lemma compute_cumulate_average_cfvs_entered:
  "compute_cumulate_average_cfvs st i s = Inr s' \<Longrightarrow>
     entered (Enter_compute_cumulate_average_cfvs i) s s'"
  by (auto simp: compute_cumulate_average_cfvs_def Let_def
      dest: with_layers_entered split: if_splits)

lemma compute_cfvs_entered: "compute_cfvs s = Inr s' \<Longrightarrow> entered Enter_compute_cfvs s s'"
  unfolding compute_cfvs_def by (rule with_layers_entered)

lemma compute_regrets_entered:
  "compute_regrets st s = Inr s' \<Longrightarrow> entered Enter_compute_regrets s s'"
  unfolding compute_regrets_def by (rule with_layers_entered)

lemma compute_normalize_average_strategies_entered:
  "compute_normalize_average_strategies s = Inr s' \<Longrightarrow>
     entered Enter_compute_normalize_average_strategies s s'"
  unfolding compute_normalize_average_strategies_def by (rule with_layers_entered)

lemma compute_normalize_average_cfvs_entered:
  "compute_normalize_average_cfvs st s = Inr s' \<Longrightarrow>
     entered Enter_compute_normalize_average_cfvs s s'"
  unfolding compute_normalize_average_cfvs_def by (rule with_layers_entered)

lemma gather_terminal_step_same_run: "gather_terminal_step st d s = Inr s' \<Longrightarrow> same_run s s'"
  by (auto simp: gather_terminal_step_def bind_err_Inr_iff same_run_def)

lemma gather_box_step_same_run: "gather_box_step st d s = Inr s' \<Longrightarrow> same_run s s'"
  by (auto simp: gather_box_step_def bind_err_Inr_iff same_run_def split: if_splits)

lemma terminal_equity_same_run:
  assumes "compute_terminal_equities_terminal_equity cs st s = Inr s'"
  shows "same_run s s'"
proof -
  from assms obtain s1 cc cf where
    g: "for_each [1..<depth s] (gather_terminal_step st) s = Inr s1"
    and w: "with_layers
       (for_each [1..<depth s1]
          (scatter_terminal_step st cc cf (first_call_terminal s1) (tree_street s1)))
       (s1\<lparr>cfvs_data_call := cc, cfvs_data_fold := cf\<rparr>) = Inr s'"
    by (auto simp: compute_terminal_equities_terminal_equity_def bind_err_Inr_iff)
  have "same_run s s1"
    using for_each_same_run[OF gather_terminal_step_same_run g] .
  moreover have "same_run s1 s'"
    using with_layers_same_run[OF w] by (simp add: same_run_def)
  ultimately show ?thesis by (rule same_run_trans)
qed

lemma next_street_box_same_run:
  assumes "compute_terminal_equities_next_street_box cs st s = Inr s'"
  shows "same_run s s'"
proof (cases "tree_street s \<noteq> 1 \<or> num_pot_sizes s = 0")
  case True
  then show ?thesis using assms
    by (auto simp: compute_terminal_equities_next_street_box_def split: if_splits)
next
  case False
  with assms obtain s1 inputs outputs where
    g: "for_each [1..<depth s] (gather_box_step st) s = Inr s1"
    and w: "with_layers
          (for_each [1..<depth s1] (scatter_box_step st (first_call_transition s1) outputs))
          (s1\<lparr>next_street_boxes_inputs := inputs, next_street_boxes_outputs := outputs\<rparr>) = Inr s'"
    by (auto simp: compute_terminal_equities_next_street_box_def bind_err_Inr_iff
        split: if_splits prod.splits)
  have "same_run s s1"
    using for_each_same_run[OF gather_box_step_same_run g] .
  moreover have "same_run s1 s'"
    using with_layers_same_run[OF w] by (simp add: same_run_def)
  ultimately show ?thesis by (rule same_run_trans)
qed

lemma compute_terminal_equities_entered:
  assumes "compute_terminal_equities cs st s = Inr s'"
  shows "entered Enter_compute_terminal_equities s s'"
proof -
  let ?s0 = "enter Enter_compute_terminal_equities s"
  from assms obtain s1 s2 where
    a: "(if tree_street ?s0 \<noteq> streets_count st
         then compute_terminal_equities_next_street_box cs st ?s0 else Inr ?s0) = Inr s1"
    and b: "compute_terminal_equities_terminal_equity cs st s1 = Inr s2"
    and c: "with_layers (for_each [1..<depth s2] scale_by_pot_step) s2 = Inr s'"
    by (auto simp: compute_terminal_equities_def Let_def bind_err_Inr_iff)
  have "same_run ?s0 s1" using a next_street_box_same_run by (auto split: if_splits)
  then have "same_run ?s0 s'"
    using terminal_equity_same_run[OF b] with_layers_same_run[OF c] same_run_trans by blast
  then show ?thesis using entered_same_run[OF entered_enter] by blast
qed

section \<open>The history of a run\<close>

lemma set_opponent_starting_range_off:
  "set_opponent_starting_range cs i s = Inr s' \<Longrightarrow> reconstruction_opponent_cfvs s = None \<Longrightarrow>
     entered (Enter_set_opponent_starting_range i) s s' \<and> layers s' = layers s"
  by (auto simp: set_opponent_starting_range_def Let_def enter_def entered_def)

lemma set_opponent_starting_range_on:
  assumes "set_opponent_starting_range cs i s = Inr s'" "reconstruction_opponent_cfvs s \<noteq> None"
  shows "\<exists>l c g rng g' r. get_layer (layers s) 0 = Inr l
      \<and> getitem (cfvs_data l) (player_ix 0) = Inr c
      \<and> reconstruction_gadget s = Some g
      \<and> compute_opponent_range cs g c i = Inr (rng, g')
      \<and> setitem (ranges_data l) (player_ix 1) rng = Inr r
      \<and> s' = s\<lparr>layers := (layers s)[0 := l\<lparr>ranges_data := r\<rparr>],
                reconstruction_gadget := Some g',
                history := history s @ [Enter_set_opponent_starting_range i,
                                        Call_compute_opponent_range c i]\<rparr>"
  using assms
  by (auto simp: set_opponent_starting_range_def Let_def enter_def bind_err_Inr_iff
      split: option.splits)

lemma iteration_history:
  assumes "iteration cs st i s = Inr s'"
  shows "reconstruction_opponent_cfvs s' = reconstruction_opponent_cfvs s
     \<and> (reconstruction_opponent_cfvs s = None \<longrightarrow>
          history s' = history s @ iteration_entries i
          \<and> reconstruction_gadget s' = reconstruction_gadget s)
     \<and> (reconstruction_opponent_cfvs s \<noteq> None \<longrightarrow>
          (\<exists>c. root_cfvs_slice s = Inr c
             \<and> history s' = history s @ iteration_events_with_call i c))"
proof -
  from assms obtain s1 s2 s3 s4 s5 s6 s7 where
    p1: "set_opponent_starting_range cs (int i) s = Inr s1"
    and p2: "compute_current_strategies st s1 = Inr s2"
    and p3: "compute_ranges st s2 = Inr s3"
    and p4: "compute_update_average_strategies st (int i) s3 = Inr s4"
    and p5: "compute_terminal_equities cs st s4 = Inr s5"
    and p6: "compute_cfvs s5 = Inr s6"
    and p7: "compute_regrets st s6 = Inr s7"
    and p8: "compute_cumulate_average_cfvs st (int i) s7 = Inr s'"
    by (auto simp: iteration_def bind_err_Inr_iff)
  note e =
    compute_current_strategies_entered[OF p2] compute_ranges_entered[OF p3]
    compute_update_average_strategies_entered[OF p4] compute_terminal_equities_entered[OF p5]
    compute_cfvs_entered[OF p6] compute_regrets_entered[OF p7]
    compute_cumulate_average_cfvs_entered[OF p8]
  have rest: "history s' = history s1 @ tl (iteration_entries i)
      \<and> reconstruction_opponent_cfvs s' = reconstruction_opponent_cfvs s1
      \<and> reconstruction_gadget s' = reconstruction_gadget s1"
    using e by (simp add: entered_def iteration_entries_def)
  show ?thesis
  proof (cases "reconstruction_opponent_cfvs s = None")
    case True
    from set_opponent_starting_range_off[OF p1 True] rest True
    show ?thesis by (simp add: entered_def iteration_entries_def)
  next
    case False
    from set_opponent_starting_range_on[OF p1 False] obtain l c g rng g' r where
      l: "get_layer (layers s) 0 = Inr l"
      and c: "getitem (cfvs_data l) (player_ix 0) = Inr c"
      and s1: "s1 = s\<lparr>layers := (layers s)[0 := l\<lparr>ranges_data := r\<rparr>],
                reconstruction_gadget := Some g',
                history := history s @ [Enter_set_opponent_starting_range (int i),
                                        Call_compute_opponent_range c (int i)]\<rparr>"
      by blast
    have "root_cfvs_slice s = Inr c" using l c by (simp add: root_cfvs_slice_def)
    moreover have "history s' = history s @ iteration_events_with_call i c"
      using rest s1 by (simp add: iteration_entries_def iteration_events_with_call_def)
    ultimately show ?thesis using rest s1 False by auto
  qed
qed

lemma upt_Suc_snoc: "[0..<Suc n] = [0..<n] @ [n]"
  by simp

lemma iterations_history:
  assumes "for_each [0..<n] (iteration cs st) s = Inr s'"
  shows "reconstruction_opponent_cfvs s' = reconstruction_opponent_cfvs s
     \<and> (reconstruction_opponent_cfvs s = None \<longrightarrow>
          history s' = history s @ concat (map iteration_entries [0..<n])
          \<and> reconstruction_gadget s' = reconstruction_gadget s)
     \<and> (reconstruction_opponent_cfvs s \<noteq> None \<longrightarrow>
          (\<exists>c. (\<forall>i<n. gadget_argument cs st s i = Inr (c i))
             \<and> history s' = history s
                  @ concat (map (\<lambda>i. iteration_events_with_call i (c i)) [0..<n])))"
  using assms
proof (induction n arbitrary: s')
  case 0
  then show ?case by simp
next
  case (Suc n)
  from Suc.prems obtain sn where
    sn: "for_each [0..<n] (iteration cs st) s = Inr sn"
    and it: "iteration cs st n sn = Inr s'"
    unfolding upt_Suc_snoc for_each_append by (auto simp: bind_err_Inr_iff)
  note ih = Suc.IH[OF sn]
  note ithis = iteration_history[OF it]
  have flag: "reconstruction_opponent_cfvs sn = reconstruction_opponent_cfvs s" using ih by simp
  show ?case
  proof (cases "reconstruction_opponent_cfvs s = None")
    case True
    then show ?thesis using ih ithis flag by simp
  next
    case False
    from ih False obtain c where
      c: "\<forall>i<n. gadget_argument cs st s i = Inr (c i)"
      and h: "history sn = history s
                  @ concat (map (\<lambda>i. iteration_events_with_call i (c i)) [0..<n])"
      by blast
    from ithis False flag obtain cn where
      cn: "root_cfvs_slice sn = Inr cn"
      and h': "history s' = history sn @ iteration_events_with_call n cn"
      by auto
    let ?c = "c(n := cn)"
    have "gadget_argument cs st s n = Inr cn"
      using sn cn by (simp add: gadget_argument_def)
    then have a: "\<forall>i<Suc n. gadget_argument cs st s i = Inr (?c i)"
      using c by (auto simp: less_Suc_eq)
    have meq: "map (\<lambda>i. iteration_events_with_call i (?c i)) [0..<n]
            = map (\<lambda>i. iteration_events_with_call i (c i)) [0..<n]"
      by simp
    have b: "history s' = history s
           @ concat (map (\<lambda>i. iteration_events_with_call i (?c i)) [0..<Suc n])"
      unfolding upt_Suc_snoc map_append concat_append meq using h h' by simp
    have "\<exists>c. (\<forall>i<Suc n. gadget_argument cs st s i = Inr (c i))
             \<and> history s' = history s
                  @ concat (map (\<lambda>i. iteration_events_with_call i (c i)) [0..<Suc n])"
      using a b by (intro exI[of _ ?c]) simp
    then show ?thesis using False ithis flag by (simp del: not_None_eq upt_Suc)
  qed
qed

lemma method_entries_simps [simp]:
  "method_entries [] = []"
  "method_entries (xs @ ys) = method_entries xs @ method_entries ys"
  "method_entries (iteration_entries i) = iteration_entries i"
  "method_entries (iteration_events_with_call i c) = iteration_entries i"
  "method_entries final_entries = final_entries"
  by (simp_all add: method_entries_def iteration_entries_def iteration_events_with_call_def
      final_entries_def)

lemma method_entries_concat:
  "method_entries (concat (map f xs)) = concat (map (\<lambda>x. method_entries (f x)) xs)"
  by (induction xs) simp_all

lemma compute_history:
  assumes "compute cs st s = Inr s'"
  shows "reconstruction_opponent_cfvs s' = reconstruction_opponent_cfvs s
     \<and> (reconstruction_opponent_cfvs s = None \<longrightarrow>
          history s' = history s @ run_entries st
          \<and> reconstruction_gadget s' = reconstruction_gadget s)
     \<and> (reconstruction_opponent_cfvs s \<noteq> None \<longrightarrow>
          (\<exists>c. (\<forall>i<nat (cfr_iters st). gadget_argument cs st s i = Inr (c i))
             \<and> history s' = history s
                  @ concat (map (\<lambda>i. iteration_events_with_call i (c i)) [0..<nat (cfr_iters st)])
                  @ final_entries))"
proof -
  from assms obtain s1 s2 where
    l: "for_each [0..<nat (cfr_iters st)] (iteration cs st) s = Inr s1"
    and n1: "compute_normalize_average_strategies s1 = Inr s2"
    and n2: "compute_normalize_average_cfvs st s2 = Inr s'"
    by (auto simp: compute_def bind_err_Inr_iff)
  note e = compute_normalize_average_strategies_entered[OF n1]
    compute_normalize_average_cfvs_entered[OF n2]
  have f: "history s' = history s1 @ final_entries
      \<and> reconstruction_opponent_cfvs s' = reconstruction_opponent_cfvs s1
      \<and> reconstruction_gadget s' = reconstruction_gadget s1"
    using e by (simp add: entered_def final_entries_def)
  show ?thesis using iterations_history[OF l] f by (auto simp: run_entries_def)
qed

lemma compute_method_entries:
  assumes "compute cs st s = Inr s'"
  shows "method_entries (history s') = method_entries (history s) @ run_entries st"
proof (cases "reconstruction_opponent_cfvs s = None")
  case True
  then show ?thesis using compute_history[OF assms]
    by (simp add: run_entries_def method_entries_concat)
next
  case False
  with compute_history[OF assms] obtain c where
    "history s' = history s
        @ concat (map (\<lambda>i. iteration_events_with_call i (c i)) [0..<nat (cfr_iters st)])
        @ final_entries"
    by blast
  then show ?thesis by (simp add: run_entries_def method_entries_concat)
qed

lemma set_root_range_same_run: "set_root_range ixs v s = Inr s' \<Longrightarrow> same_run s s'"
  unfolding set_root_range_def by (rule with_layers_same_run)

section \<open>The entry points\<close>

lemma resolve_via_start:
  "resolve cs st (Some pr) (Some oc) s = bind_err (resolve_start cs pr oc s) (compute cs st)"
  by (cases "set_root_range [All, All, All, Idx 0, All] pr
        (s\<lparr>reconstruction_gadget := Some (new_gadget cs (tree_board s) pr oc)\<rparr>)")
     (simp_all add: resolve_def resolve_start_def Let_def)

lemma resolve_start_state:
  assumes "resolve_start cs pr oc s = Inr s0"
  shows "history s0 = history s \<and> reconstruction_opponent_cfvs s0 = Some oc"
proof -
  from assms obtain s1 where
    a: "set_root_range [All, All, All, Idx 0, All] pr
          (s\<lparr>reconstruction_gadget := Some (new_gadget cs (tree_board s) pr oc)\<rparr>) = Inr s1"
    and b: "s0 = s1\<lparr>reconstruction_opponent_cfvs := Some oc\<rparr>"
    by (auto simp: resolve_start_def bind_err_Inr_iff)
  from set_root_range_same_run[OF a] b show ?thesis by (simp add: same_run_def)
qed

lemma resolve_args:
  assumes "resolve cs st player_range opponent_cfvs s = Inr s'"
  obtains pr oc where "player_range = Some pr" "opponent_cfvs = Some oc"
  using assms by (cases player_range; cases opponent_cfvs) (simp_all add: resolve_def)

lemma resolve_first_node_start:
  assumes "resolve_first_node cs st player_range opponent_range s = Inr s'"
  obtains s0 where "same_run s s0" "compute cs st s0 = Inr s'"
proof -
  from assms obtain pr s1 orng s0 where
    a: "set_root_range (player_ix 0) pr s = Inr s1"
    and b: "set_root_range (player_ix 1) orng s1 = Inr s0"
    and c: "compute cs st s0 = Inr s'"
    by (auto simp: resolve_first_node_def bind_err_Inr_iff)
  have "same_run s s0"
    using set_root_range_same_run[OF a] set_root_range_same_run[OF b] same_run_trans by blast
  then show ?thesis using c that by blast
qed

lemma toy_root_resolve_succeeds:
  "succeeds (resolve_first_node toy_collab toy_settings (Some one_hand) (Some one_hand) toy_built)"
  by code_simp

lemma toy_resolve_succeeds:
  "succeeds (resolve toy_collab toy_settings (Some one_hand) (Some one_hand) toy_built)"
  by code_simp

lemma succeedsE:
  assumes "succeeds m"
  obtains x where "m = Inr x"
  using assms by (cases m) (simp_all add: succeeds_def)


text \<open>
  The assignment that gathers the ranges for the next-street box,
  \<^verbatim>\<open>next_street_boxes_outputs[i0:i1, :, :, :] = ranges_data[1, p0:p1, :, :, :, :]\<close>, has a
  value of one more axis than its target; the extra leading axis has length 1 and the
  assignment drops it.
\<close>

lemma box_gather_assignment:
  "getitem \<lparr>shape = [3,1,1,1,2,1], data = [Fin 1, Fin 2, Fin 3, Fin 4, Fin 5, Fin 6]\<rparr>
       [Idx 1, Slice (Some 0) (Some 1), All, All, All, All]
     = Inr \<lparr>shape = [1,1,1,2,1], data = [Fin 3, Fin 4]\<rparr>
   \<and> setitem (zeros [1,1,2,1]) [Slice (Some 0) (Some 1), All, All, All]
       \<lparr>shape = [1,1,1,2,1], data = [Fin 3, Fin 4]\<rparr>
     = Inr \<lparr>shape = [1,1,2,1], data = [Fin 3, Fin 4]\<rparr>
   \<and> setitem (zeros [1,1,2,1]) [Slice (Some 0) (Some 1), All, All, All]
       \<lparr>shape = [2,1,1,2,1], data = [Fin 3, Fin 4, Fin 5, Fin 6]\<rparr>
     = Inl ValueError"
  by code_simp

lemma box_gather_step:
  "returns_with
     (bind_err (set_root_range (player_ix 0) one_hand box_built) (\<lambda>s.
      bind_err (set_root_range (player_ix 1) one_hand s) (\<lambda>s.
      bind_err (compute_current_strategies box_settings s) (\<lambda>s.
      bind_err (compute_ranges box_settings s) (\<lambda>s.
      gather_box_step box_settings 1 s)))))
     (\<lambda>s. next_street_boxes_outputs s = \<lparr>shape = [1,1,2,1], data = [Fin (1/2), Fin 1]\<rparr>)"
  by code_simp

lemma box_root_resolve_returns:
  "returns_with
     (resolve_first_node box_collab box_settings (Some one_hand) (Some one_hand) box_built)
     (\<lambda>s. next_street_boxes_inputs s = \<lparr>shape = [1,1,2,1], data = [Fin 1, Fin (1/2)]\<rparr>
        \<and> next_street_boxes_outputs s = \<lparr>shape = [1,1,2,1], data = [Fin 2, Fin (- 2)]\<rparr>
        \<and> cfvs_data (layers s ! 1)
            = \<lparr>shape = [3,1,1,1,2,1], data = [Fin 1, Fin (- 1), Fin 2, Fin (- 2), Fin 0, Fin 0]\<rparr>)"
  by code_simp

lemma box_resolve_returns:
  "returns_with
     (resolve box_collab box_settings (Some one_hand) (Some one_hand) box_built)
     (\<lambda>s. next_street_boxes_inputs s = \<lparr>shape = [1,1,2,1], data = [Fin 1, Fin (1/2)]\<rparr>
        \<and> next_street_boxes_outputs s = \<lparr>shape = [1,1,2,1], data = [Fin 2, Fin (- 2)]\<rparr>
        \<and> cfvs_data (layers s ! 1)
            = \<lparr>shape = [3,1,1,1,2,1], data = [Fin 1, Fin (- 1), Fin 2, Fin (- 2), Fin 0, Fin 0]\<rparr>)"
  by code_simp

lemma returns_withE:
  assumes "returns_with m P"
  obtains x where "m = Inr x" "P x"
  using assms by (cases m) (simp_all add: returns_with_def)
section \<open>Results of a re-solve\<close>

lemma slice_all [simp]: "slice_start n None = 0" "slice_stop n None = n" "slice_len n None None = n"
  by (simp_all add: slice_start_def slice_stop_def slice_len_def)








section \<open>Claims\<close>

text \<open>
  C3. Immediately after \<^verbatim>\<open>_compute_regrets\<close> returns, every entry of
  \<^verbatim>\<open>regrets_data\<close> of every non-root layer \<open>d\<close> (\<open>1 \<le> d < depth\<close>) is at least 0:
  the cumulative regret is clipped below at 0 after the regret of the iteration is added.
  The counterfactual values and regrets that enter are finite numbers and the upper
  clamp \<^verbatim>\<open>max_number\<close> is not negative.
\<close>

theorem regrets_nonneg_after_compute_regrets:
  assumes "compute_regrets st s = Inr s'"
    and "list_all regret_inputs_ok (layers s)"
    and "fle (Fin 0) (max_number st)"
    and "1 \<le> d" "d < depth s"
  shows "d < length (layers s') \<and> all_nonneg (regrets_data (layers s' ! d))"
proof -
  from assms(1) obtain g' ls' where
    loop: "for_each (rev [1..<depth s]) (regrets_step st (batch_size s)) (None, layers s) = Inr (g', ls')"
    and s': "layers s' = ls'"
    by (auto simp: compute_regrets_def with_layers_def enter_def bind_err_Inr_iff split: prod.splits)
  have "d \<in> set (rev [1..<depth s])" using assms(4,5) by simp
  then show ?thesis using regrets_loop[OF loop assms(2,3)] s' by auto
qed

theorem regrets_nonneg_after_compute_regrets_witness:
  "\<exists>s'. compute_regrets toy_settings toy_evaluated = Inr s'
      \<and> list_all regret_inputs_ok (layers toy_evaluated)
      \<and> fle (Fin 0) (max_number toy_settings)
      \<and> (1::nat) \<le> 1 \<and> 1 < depth toy_evaluated
      \<and> 1 < length (layers s') \<and> all_nonneg (regrets_data (layers s' ! 1))"
proof -
  have "succeeds (compute_regrets toy_settings toy_evaluated)"
    by code_simp
  then obtain s' where s': "compute_regrets toy_settings toy_evaluated = Inr s'"
    by (auto simp: succeeds_def split: sum.splits)
  have h2: "list_all regret_inputs_ok (layers toy_evaluated)"
    by code_simp
  have h3: "fle (Fin 0) (max_number toy_settings)"
    by code_simp
  have h5: "1 < depth toy_evaluated"
    by code_simp
  from regrets_nonneg_after_compute_regrets[OF s' h2 h3 _ h5] s' h2 h3 h5
  show ?thesis by auto
qed

text \<open>
  C10. After \<^verbatim>\<open>_compute_current_strategies\<close>, in every non-root layer \<open>d\<close> and for every
  state (bet slot, node, batch entry, hand) at which the mask \<^verbatim>\<open>empty_action_mask\<close> marks
  at least one valid action: the sum of the clipped, masked regrets that normalises the
  strategy is a number at least \<^verbatim>\<open>regret_epsilon\<close>, hence positive, so no division by
  zero occurs; every entry of the current strategy is a non-negative number, the entries
  of masked actions are 0, and the entries sum to 1 over the actions. The regrets that
  enter are not NaN and \<open>0 < regret_epsilon \<le> max_number\<close>.
\<close>

theorem current_strategy_well_defined:
  assumes run: "compute_current_strategies st s = Inr s'"
    and d: "1 \<le> d" "d < depth s"
    and ok: "strategy_inputs_ok (layers s ! d)"
    and eps: "regret_epsilon s = Fin e" "0 < e" "max_number st = Fin m" "e \<le> m"
    and shp: "shape (regrets_data (layers s ! d)) = A # rest"
    and state: "valid_idx rest state"
    and act: "\<exists>a<A. item (empty_action_mask (layers s ! d)) (a # state) = Fin 1"
  shows "\<exists>sum p. item (regrets_sum (layers s' ! d)) (0 # state) = Fin sum \<and> e \<le> sum
      \<and> (\<forall>a<A. item (current_strategy_data (layers s' ! d)) (a # state) = Fin (p a) \<and> 0 \<le> p a
            \<and> (item (empty_action_mask (layers s ! d)) (a # state) = Fin 0 \<longrightarrow> p a = 0))
      \<and> (\<Sum>a<A. p a) = 1"
proof -
  from run have loop: "for_each [1..<depth s] (current_strategies_step st (Fin e)) (layers s)
      = Inr (layers s')"
    by (auto simp: compute_current_strategies_def with_layers_def enter_def bind_err_Inr_iff eps)
  have "d \<in> set [1..<depth s]" using d by simp
  with current_strategies_loop[OF loop] have
    "current_strategies_layer st (Fin e) (layers s ! d) = Inr (layers s' ! d)"
    by simp
  from current_strategies_layer_entries[OF this ok eps(2,3,4) shp state act]
  show ?thesis .
qed

theorem current_strategy_well_defined_witness:
  "\<exists>s' sum p. compute_current_strategies toy_settings toy_built = Inr s'
      \<and> (1::nat) \<le> 1 \<and> 1 < depth toy_built
      \<and> strategy_inputs_ok (layers toy_built ! 1)
      \<and> regret_epsilon toy_built = Fin 1 \<and> (0::real) < 1
      \<and> max_number toy_settings = Fin 999999 \<and> (1::real) \<le> 999999
      \<and> shape (regrets_data (layers toy_built ! 1)) = 2 # [1, 1, 1, 1]
      \<and> valid_idx [1, 1, 1, 1] [0, 0, 0, 0]
      \<and> (\<exists>a<2. item (empty_action_mask (layers toy_built ! 1)) (a # [0, 0, 0, 0]) = Fin 1)
      \<and> item (regrets_sum (layers s' ! 1)) (0 # [0, 0, 0, 0]) = Fin sum \<and> 1 \<le> sum
      \<and> (\<forall>a<2. item (current_strategy_data (layers s' ! 1)) (a # [0, 0, 0, 0]) = Fin (p a)
              \<and> 0 \<le> p a
              \<and> (item (empty_action_mask (layers toy_built ! 1)) (a # [0, 0, 0, 0]) = Fin 0
                    \<longrightarrow> p a = 0))
      \<and> (\<Sum>a<2. p a) = 1"
proof -
  have "succeeds (compute_current_strategies toy_settings toy_built)"
    by code_simp
  then obtain s' where s': "compute_current_strategies toy_settings toy_built = Inr s'"
    by (auto simp: succeeds_def split: sum.splits)
  have h2: "1 < depth toy_built" by code_simp
  have h3: "strategy_inputs_ok (layers toy_built ! 1)" by code_simp
  have h4: "regret_epsilon toy_built = Fin 1" by code_simp
  have h5: "max_number toy_settings = Fin 999999" by code_simp
  have h6: "shape (regrets_data (layers toy_built ! 1)) = 2 # [1, 1, 1, 1]" by code_simp
  have h7: "valid_idx [1, 1, 1, 1] [0, 0, 0, 0]" by simp
  have m0: "item (empty_action_mask (layers toy_built ! 1)) (0 # [0, 0, 0, 0]) = Fin 1"
    by code_simp
  then have h8: "\<exists>a<2. item (empty_action_mask (layers toy_built ! 1)) (a # [0, 0, 0, 0]) = Fin 1"
    by (intro exI[of _ 0]) simp
  from current_strategy_well_defined[OF s' _ h2 h3 h4 _ h5 _ h6 h7 h8]
  obtain sum p where
    "item (regrets_sum (layers s' ! 1)) (0 # [0, 0, 0, 0]) = Fin sum \<and> 1 \<le> sum
      \<and> (\<forall>a<2. item (current_strategy_data (layers s' ! 1)) (a # [0, 0, 0, 0]) = Fin (p a)
              \<and> 0 \<le> p a
              \<and> (item (empty_action_mask (layers toy_built ! 1)) (a # [0, 0, 0, 0]) = Fin 0
                    \<longrightarrow> p a = 0))
      \<and> (\<Sum>a<2. p a) = 1"
    by auto
  then show ?thesis using s' h2 h3 h4 h5 h6 h7 h8
    apply (intro exI[of _ s'] exI[of _ sum] exI[of _ p])
    apply simp
    done
qed

text \<open>
  C5. After \<^verbatim>\<open>_compute_normalize_average_strategies\<close>: every entry of the normalized
  average strategy of layer 1 is defined (not NaN); for a hand whose average-strategy sum
  over the actions is zero or undefined (NaN, the value that compares unequal to itself)
  the strategy is always-fold, 1 on the first action and 0 on the others; for a hand with
  a positive sum every entry is the accumulated entry divided by the sum, untouched by the
  substitution. The accumulated entries are non-negative numbers or NaN.
\<close>

theorem normalized_average_strategy_defined:
  assumes run: "compute_normalize_average_strategies s = Inr s'"
    and ok: "average_inputs_ok (layers s ! 1)"
    and shp: "shape (average_strategies_data (layers s ! 1)) = A # rest"
    and state: "valid_idx rest state"
    and rsum: "reach = fsum (map (\<lambda>i. item (average_strategies_data (layers s ! 1)) (i # state)) [0..<A])"
  shows "list_all (\<lambda>x. x \<noteq> NaN) (data (average_strategies_data (layers s' ! 1)))
    \<and> (reach = Fin 0 \<or> reach = NaN \<longrightarrow>
          item (average_strategies_data (layers s' ! 1)) (0 # state) = Fin 1
          \<and> (\<forall>a. 0 < a \<and> a < A \<longrightarrow>
                item (average_strategies_data (layers s' ! 1)) (a # state) = Fin 0))
    \<and> (\<forall>S. reach = Fin S \<and> 0 < S \<longrightarrow>
          (\<forall>a<A. \<exists>r. item (average_strategies_data (layers s ! 1)) (a # state) = Fin r
                \<and> item (average_strategies_data (layers s' ! 1)) (a # state) = Fin (r / S)))"
proof -
  let ?l = "layers s ! 1" and ?l' = "layers s' ! 1"
  let ?avg = "average_strategies_data ?l" and ?avg' = "average_strategies_data ?l'"
  from run have len: "1 < length (layers s)"
    and lay: "normalize_average_strategies_layer ?l = Inr ?l'"
    by (auto simp: compute_normalize_average_strategies_def with_layers_def enter_def
        get_layer_def bind_err_Inr_iff split: if_splits)
  from ok have wf: "wf_array ?avg" and rv: "\<forall>x \<in> set (data ?avg). reach_value x"
    by (auto simp: average_inputs_ok_def list_all_iff)
  note ent = normalize_average_strategies_entries[OF lay wf shp state]
  have tot: "item (regrets_sum ?l') (0 # state) = reach" if "a < A" for a
    using ent(1)[OF that] rsum by simp
  have entry: "item ?avg' (a # state) =
          (let x = fdiv (item ?avg (a # state)) reach
           in if x = NaN then (if a = 0 then Fin 1 else Fin 0) else x)" if "a < A" for a
    using ent(2)[OF that] tot[OF that] by simp
  have col: "reach_value (item ?avg (a # state))" if "a < A" for a
    using item_mem[OF wf, of "a # state"] rv that state shp by simp
  text \<open>every entry is defined\<close>
  have defined: "list_all (\<lambda>x. x \<noteq> NaN) (data ?avg')"
  proof -
    from lay obtain rs a2 where
      eq: "?l\<lparr>regrets_sum := rs, average_strategies_data := set_where_nan a2 (Fin 0)\<rparr> = ?l'"
      by (auto simp: normalize_average_strategies_layer_def bind_err_Inr_iff)
    have "?avg' = set_where_nan a2 (Fin 0)"
      using arg_cong[OF eq, of average_strategies_data] by simp
    then show ?thesis using set_where_nan_no_nan[of "Fin 0" a2] by simp
  qed
  text \<open>a sum that is zero or undefined: every quotient is NaN\<close>
  have degenerate: "fdiv (item ?avg (a # state)) reach = NaN"
    if a: "a < A" and t: "reach = Fin 0 \<or> reach = NaN" for a
  proof (cases "\<exists>i<A. item ?avg (i # state) = NaN")
    case True
    then have "NaN \<in> set (map (\<lambda>i. item ?avg (i # state)) [0..<A])" by force
    then have "reach = NaN" using rsum fsum_NaN by simp
    then show ?thesis by simp
  next
    case False
    define q where "q i = (case item ?avg (i # state) of Fin r \<Rightarrow> r | _ \<Rightarrow> 0)" for i
    have q: "item ?avg (i # state) = Fin (q i) \<and> 0 \<le> q i" if "i < A" for i
      using col[OF that] False that by (auto elim!: reach_value_cases simp: q_def)
    have meq: "map (\<lambda>i. item ?avg (i # state)) [0..<A] = map (\<lambda>i. Fin (q i)) [0..<A]"
      using q by simp
    have rq: "reach = Fin (sum_list (map q [0..<A]))"
      unfolding rsum meq by (simp add: fsum_Fin)
    then have "sum_list (map q [0..<A]) = 0" using t by simp
    then have "(\<Sum>i<A. q i) = 0" by (simp add: sum_list_sum_nth atLeast0LessThan)
    then have "\<forall>i \<in> {..<A}. q i = 0"
      using sum_nonneg_eq_0_iff[of "{..<A}" q] q by auto
    then have "q a = 0" using a by simp
    then show ?thesis using t q[OF a] rq
      by (auto simp: inf_of_sign_def)
  qed
  have fold: "item ?avg' (0 # state) = Fin 1
          \<and> (\<forall>a. 0 < a \<and> a < A \<longrightarrow> item ?avg' (a # state) = Fin 0)"
    if t: "reach = Fin 0 \<or> reach = NaN"
  proof (cases "A = 0")
    case True
    with run shp lay show ?thesis
      by (auto simp: normalize_average_strategies_layer_def bind_err_Inr_iff getitem_def
          idx_ok_def dest!: np_iop_shape)
  next
    case False
    then have "0 < A" by simp
    then show ?thesis using entry degenerate t by (auto simp: Let_def)
  qed
  text \<open>a positive sum: the quotients are numbers and stay\<close>
  have positive: "\<exists>r. item ?avg (a # state) = Fin r \<and> item ?avg' (a # state) = Fin (r / S)"
    if a: "a < A" and t: "reach = Fin S" "0 < S" for a S
  proof -
    have "item ?avg (i # state) \<noteq> NaN" if "i < A" for i
    proof
      assume "item ?avg (i # state) = NaN"
      then have "NaN \<in> set (map (\<lambda>i. item ?avg (i # state)) [0..<A])" using that by force
      then show False using rsum fsum_NaN t by simp
    qed
    then obtain r where r: "item ?avg (a # state) = Fin r"
      using col[OF a] a by (auto elim!: reach_value_cases)
    then show ?thesis using entry[OF a] t by (simp add: Let_def)
  qed
  show ?thesis
  proof (intro conjI allI impI)
    show "list_all (\<lambda>x. x \<noteq> NaN) (data ?avg')" by (rule defined)
  next
    assume "reach = Fin 0 \<or> reach = NaN"
    then show "item ?avg' (0 # state) = Fin 1" using fold by simp
  next
    fix a assume "reach = Fin 0 \<or> reach = NaN" "0 < a \<and> a < A"
    then show "item ?avg' (a # state) = Fin 0" using fold by simp
  next
    fix S a assume "reach = Fin S \<and> 0 < S" "a < A"
    then show "\<exists>r. item ?avg (a # state) = Fin r \<and> item ?avg' (a # state) = Fin (r / S)"
      using positive by simp
  qed
qed



theorem normalized_average_strategy_defined_witness:
  "\<exists>s'. compute_normalize_average_strategies toy_averaged = Inr s'
     \<and> average_inputs_ok (layers toy_averaged ! 1)
     \<and> shape (average_strategies_data (layers toy_averaged ! 1)) = 2 # [1, 1, 1, 2]
     \<and> valid_idx [1, 1, 1, 2] [0, 0, 0, 1] \<and> valid_idx [1, 1, 1, 2] [0, 0, 0, 0]
     \<and> fsum (map (\<lambda>i. item (average_strategies_data (layers toy_averaged ! 1)) (i # [0, 0, 0, 1]))
          [0..<2]) = Fin 0
     \<and> fsum (map (\<lambda>i. item (average_strategies_data (layers toy_averaged ! 1)) (i # [0, 0, 0, 0]))
          [0..<2]) = Fin 4 \<and> (0::real) < 4
     \<and> list_all (\<lambda>x. x \<noteq> NaN) (data (average_strategies_data (layers s' ! 1)))
     \<and> item (average_strategies_data (layers s' ! 1)) [0, 0, 0, 0, 1] = Fin 1
     \<and> item (average_strategies_data (layers s' ! 1)) [1, 0, 0, 0, 1] = Fin 0
     \<and> item (average_strategies_data (layers s' ! 1)) [0, 0, 0, 0, 0] = Fin (1 / 4)
     \<and> item (average_strategies_data (layers s' ! 1)) [1, 0, 0, 0, 0] = Fin (3 / 4)"
proof -
  have "succeeds (compute_normalize_average_strategies toy_averaged)"
    by code_simp
  then obtain s' where s': "compute_normalize_average_strategies toy_averaged = Inr s'"
    by (auto simp: succeeds_def split: sum.splits)
  have h2: "average_inputs_ok (layers toy_averaged ! 1)" by code_simp
  have h3: "shape (average_strategies_data (layers toy_averaged ! 1)) = 2 # [1, 1, 1, 2]"
    by code_simp
  have v1: "valid_idx [1, 1, 1, 2] [0, 0, 0, 1]" and v0: "valid_idx [1, 1, 1, 2] [0, 0, 0, 0]"
    by simp_all
  have t1: "Fin 0 = fsum (map (\<lambda>i. item (average_strategies_data (layers toy_averaged ! 1))
              (i # [0, 0, 0, 1])) [0..<2])"
    by code_simp
  have t0: "Fin 4 = fsum (map (\<lambda>i. item (average_strategies_data (layers toy_averaged ! 1))
              (i # [0, 0, 0, 0])) [0..<2])"
    by code_simp
  have e0: "item (average_strategies_data (layers toy_averaged ! 1)) (0 # [0, 0, 0, 0]) = Fin 1"
    and e1: "item (average_strategies_data (layers toy_averaged ! 1)) (1 # [0, 0, 0, 0]) = Fin 3"
    by code_simp+
  note zero = normalized_average_strategy_defined[OF s' h2 h3 v1 t1]
  note pos = normalized_average_strategy_defined[OF s' h2 h3 v0 t0]
  have z: "item (average_strategies_data (layers s' ! 1)) [0, 0, 0, 0, 1] = Fin 1"
    "item (average_strategies_data (layers s' ! 1)) [1, 0, 0, 0, 1] = Fin 0"
    using zero by simp_all
  from pos have p4: "\<forall>a<2. \<exists>r.
      item (average_strategies_data (layers toy_averaged ! 1)) (a # [0, 0, 0, 0]) = Fin r
      \<and> item (average_strategies_data (layers s' ! 1)) (a # [0, 0, 0, 0]) = Fin (r / 4)"
    by simp
  from p4 obtain r0 where
    "item (average_strategies_data (layers toy_averaged ! 1)) (0 # [0, 0, 0, 0]) = Fin r0"
    "item (average_strategies_data (layers s' ! 1)) (0 # [0, 0, 0, 0]) = Fin (r0 / 4)"
    by (metis zero_less_numeral)
  then have p0: "item (average_strategies_data (layers s' ! 1)) [0, 0, 0, 0, 0] = Fin (1 / 4)"
    using e0 by simp
  from p4 obtain r1 where
    "item (average_strategies_data (layers toy_averaged ! 1)) (1 # [0, 0, 0, 0]) = Fin r1"
    "item (average_strategies_data (layers s' ! 1)) (1 # [0, 0, 0, 0]) = Fin (r1 / 4)"
    by (metis one_less_numeral_iff semiring_norm(76))
  then have p1: "item (average_strategies_data (layers s' ! 1)) [1, 0, 0, 0, 0] = Fin (3 / 4)"
    using e1 by simp
  have d: "list_all (\<lambda>x. x \<noteq> NaN) (data (average_strategies_data (layers s' ! 1)))"
    using zero by simp
  show ?thesis
    apply (rule exI[of _ s'])
    apply (intro conjI)
    apply (rule s' h2 h3 v1 v0 t1[symmetric] t0[symmetric] d z p0 p1 | simp)+
    done
qed

text \<open>
  C9. \<^verbatim>\<open>get_chance_action_cfv\<close>, called with an action that has no batch index in
  \<^verbatim>\<open>action_to_index\<close> (no entry, or the entry None), raises: the call returns no value.
  For a mapped action the vector it returns is, hand by hand, the value the next-street
  collaborator wrote for that batch index and the tree's current player, multiplied by the
  next-round pot size of that batch index.
\<close>

theorem get_chance_action_cfv_result:
  "(action_to_index s action = None \<or> action_to_index s action = Some None
      \<longrightarrow> (\<exists>e. get_chance_action_cfv cs st action board s = Inl e))
   \<and> (\<forall>b n out s'. action_to_index s action = Some (Some b)
          \<and> shape (next_round_pot_sizes s) = [n]
          \<and> get_chance_action_cfv cs st action board s = Inr (out, s')
      \<longrightarrow> (\<exists>box0 res box m pc hc.
            reshape (next_street_boxes_outputs s) [- 1, players_count st, hand_count st] = Inr box0
          \<and> get_value_on_board cs board box0 = Inr res
          \<and> write_back box0 res = Inr box
          \<and> shape box = [m, pc, hc] \<and> shape out = [hc]
          \<and> (\<forall>h<hc. item out [h] =
                fmul (item box [norm_idx m b, norm_idx pc (tree_current_player s), h])
                     (item (next_round_pot_sizes s) [norm_idx n b]))))"
proof (intro conjI impI allI)
  assume "action_to_index s action = None \<or> action_to_index s action = Some None"
  then show "\<exists>e. get_chance_action_cfv cs st action board s = Inl e"
    by (cases "reshape (next_street_boxes_outputs s) [- 1, players_count st, hand_count st]")
       (auto simp: get_chance_action_cfv_def)
next
  fix b n out s'
  assume a: "action_to_index s action = Some (Some b)
          \<and> shape (next_round_pot_sizes s) = [n]
          \<and> get_chance_action_cfv cs st action board s = Inr (out, s')"
  let ?cp = "tree_current_player s"
  from a obtain box0 pot_mult res box out0 where
    box0: "reshape (next_street_boxes_outputs s) [- 1, players_count st, hand_count st] = Inr box0"
    and pot: "getitem (next_round_pot_sizes s) [Idx b] = Inr pot_mult"
    and res: "get_value_on_board cs board box0 = Inr res"
    and box: "write_back box0 res = Inr box"
    and out0: "getitem box [Idx b, Idx ?cp] = Inr out0"
    and out: "np_iop fmul out0 pot_mult = Inr out"
    by (auto simp: get_chance_action_cfv_def bind_err_Inr_iff)
  have "length (shape box0) = 3" using reshape_rank[OF box0] by simp
  then obtain m pc hc where sh0: "shape box0 = [m, pc, hc]"
    by (auto simp: length_Suc_conv numeral_3_eq_3)
  have shb: "shape box = [m, pc, hc]" using reshape_to_shape[of res "shape box0" box] box sh0
    by (simp add: write_back_def)
  have so0: "sel_shape [m, pc, hc] [Idx b, Idx ?cp] = Inr (shape out0)"
    using getitem_shape[OF out0] shb by simp
  then have ok: "idx_ok m b" "idx_ok pc ?cp" and sho0: "shape out0 = [hc]"
    by (auto split: if_splits)
  have sho: "shape out = [hc]" using np_iop_shape[OF out] sho0 by simp
  have "sel_shape [n] [Idx b] = Inr (shape pot_mult)" using getitem_shape[OF pot] a by simp
  then have shp: "shape pot_mult = []" by (auto split: if_splits)
  have items: "item out [h] =
      fmul (item box [norm_idx m b, norm_idx pc ?cp, h])
           (item (next_round_pot_sizes s) [norm_idx n b])" if h: "h < hc" for h
  proof -
    have v: "valid_idx (shape out0) [h]" using h sho0 by simp
    have "item out [h] = fmul (item out0 [h]) (item pot_mult (bc_src (shape pot_mult) [h]))"
      using item_np_iop[OF out wf_getitem[OF out0] v] .
    moreover have "item out0 [h] = item box [norm_idx m b, norm_idx pc ?cp, h]"
      using item_getitem[OF out0 v] shb by simp
    moreover have "item pot_mult [] = item (next_round_pot_sizes s) [norm_idx n b]"
      using item_getitem[OF pot, of "[]"] shp a by simp
    ultimately show ?thesis using shp by (simp add: bc_src_def)
  qed
  show "\<exists>box0 res box m pc hc.
            reshape (next_street_boxes_outputs s) [- 1, players_count st, hand_count st] = Inr box0
          \<and> get_value_on_board cs board box0 = Inr res
          \<and> write_back box0 res = Inr box
          \<and> shape box = [m, pc, hc] \<and> shape out = [hc]
          \<and> (\<forall>h<hc. item out [h] =
                fmul (item box [norm_idx m b, norm_idx pc (tree_current_player s), h])
                     (item (next_round_pot_sizes s) [norm_idx n b]))"
    apply (rule exI[of _ box0], rule exI[of _ res], rule exI[of _ box])
    apply (rule exI[of _ m], rule exI[of _ pc], rule exI[of _ hc])
    using box0 res box shb sho items apply simp
    done
qed

theorem get_chance_action_cfv_result_witness:
  "action_to_index toy_transition 9 = None
   \<and> (\<exists>e. get_chance_action_cfv toy_box_collab toy_settings 9 [] toy_transition = Inl e)
   \<and> action_to_index toy_transition 7 = Some (Some 0)
   \<and> shape (next_round_pot_sizes toy_transition) = [1]
   \<and> (\<exists>out s' box m pc hc.
         get_chance_action_cfv toy_box_collab toy_settings 7 [] toy_transition = Inr (out, s')
       \<and> shape box = [m, pc, hc] \<and> shape out = [hc]
       \<and> (\<forall>h<hc. item out [h] =
             fmul (item box [norm_idx m 0, norm_idx pc (tree_current_player toy_transition), h])
                  (item (next_round_pot_sizes toy_transition) [norm_idx 1 0])))"
proof -
  have u: "action_to_index toy_transition 9 = None"
    by (simp add: toy_transition_def)
  have m: "action_to_index toy_transition 7 = Some (Some 0)"
    by (simp add: toy_transition_def)
  have p: "shape (next_round_pot_sizes toy_transition) = [1]"
    by (simp add: toy_transition_def)
  have "succeeds (get_chance_action_cfv toy_box_collab toy_settings 7 [] toy_transition)"
    unfolding get_chance_action_cfv_def m by code_simp
  then obtain out s' where
    r: "get_chance_action_cfv toy_box_collab toy_settings 7 [] toy_transition = Inr (out, s')"
    by (auto simp: succeeds_def split: sum.splits)
  note t = get_chance_action_cfv_result[of toy_transition _ toy_box_collab toy_settings "[]"]
  from t[of 9] u
  have f: "\<exists>e. get_chance_action_cfv toy_box_collab toy_settings 9 [] toy_transition = Inl e"
    by simp
  from t[of 7] m p r
  have "\<exists>box0 res box m pc hc.
            reshape (next_street_boxes_outputs toy_transition)
              [- 1, players_count toy_settings, hand_count toy_settings] = Inr box0
          \<and> get_value_on_board toy_box_collab [] box0 = Inr res
          \<and> write_back box0 res = Inr box
          \<and> shape box = [m, pc, hc] \<and> shape out = [hc]
          \<and> (\<forall>h<hc. item out [h] =
                fmul (item box [norm_idx m 0, norm_idx pc (tree_current_player toy_transition), h])
                     (item (next_round_pot_sizes toy_transition) [norm_idx 1 0]))"
    by blast
  then obtain box m' pc hc where
    "shape box = [m', pc, hc] \<and> shape out = [hc]
          \<and> (\<forall>h<hc. item out [h] =
                fmul (item box [norm_idx m' 0, norm_idx pc (tree_current_player toy_transition), h])
                     (item (next_round_pot_sizes toy_transition) [norm_idx 1 0]))"
    by blast
  then show ?thesis using u f m p r by blast
qed

text \<open>
  C6. A call of \<^verbatim>\<open>resolve\<close> or \<^verbatim>\<open>resolve_first_node\<close> that returns has run exactly
  \<open>N\<close> iterations, \<open>N\<close> the configured \<^verbatim>\<open>cfr_iters\<close>, and in each iteration the methods
  were entered in the order: (opponent starting range,) regret matching, range
  propagation, average-strategy update, terminal and depth-limit values, CFV
  back-propagation, regret update, average-CFV accumulation; after the loop the average
  strategy and then the averaged root CFVs were normalized. The method entries that the
  run adds to the history are exactly \<open>run_entries\<close>.
\<close>

theorem run_order:
  "(resolve_first_node cs st player_range opponent_range s = Inr s'
      \<longrightarrow> method_entries (history s') = method_entries (history s) @ run_entries st)
   \<and> (resolve cs st player_range opponent_cfvs s = Inr s''
      \<longrightarrow> method_entries (history s'') = method_entries (history s) @ run_entries st)"
proof (intro conjI impI)
  assume "resolve_first_node cs st player_range opponent_range s = Inr s'"
  then obtain s0 where "same_run s s0" "compute cs st s0 = Inr s'"
    by (rule resolve_first_node_start)
  then show "method_entries (history s') = method_entries (history s) @ run_entries st"
    using compute_method_entries[of cs st s0 s'] by (simp add: same_run_def)
next
  assume r: "resolve cs st player_range opponent_cfvs s = Inr s''"
  then obtain pr oc where "player_range = Some pr" "opponent_cfvs = Some oc"
    by (rule resolve_args)
  with r obtain s0 where "resolve_start cs pr oc s = Inr s0" "compute cs st s0 = Inr s''"
    by (auto simp: resolve_via_start bind_err_Inr_iff)
  then show "method_entries (history s'') = method_entries (history s) @ run_entries st"
    using compute_method_entries[of cs st s0 s''] resolve_start_state[of cs pr oc s s0] by simp
qed

theorem run_order_witness:
  "\<exists>s' s''. resolve_first_node toy_collab toy_settings (Some one_hand) (Some one_hand) toy_built = Inr s'
     \<and> method_entries (history s') = iteration_entries 0 @ iteration_entries 1 @ iteration_entries 2
          @ [Enter_compute_normalize_average_strategies, Enter_compute_normalize_average_cfvs]
     \<and> resolve toy_collab toy_settings (Some one_hand) (Some one_hand) toy_built = Inr s''
     \<and> method_entries (history s'') = iteration_entries 0 @ iteration_entries 1 @ iteration_entries 2
          @ [Enter_compute_normalize_average_strategies, Enter_compute_normalize_average_cfvs]"
proof -
  from toy_root_resolve_succeeds obtain s' where
    a: "resolve_first_node toy_collab toy_settings (Some one_hand) (Some one_hand) toy_built = Inr s'"
    by (rule succeedsE)
  from toy_resolve_succeeds obtain s'' where
    b: "resolve toy_collab toy_settings (Some one_hand) (Some one_hand) toy_built = Inr s''"
    by (rule succeedsE)
  have h: "history toy_built = []" by (simp add: toy_built_def)
  have n: "[0..<nat (cfr_iters toy_settings)] = [0, 1, 2]"
    by (simp add: toy_settings_def upt_rec)
  have r: "run_entries toy_settings = iteration_entries 0 @ iteration_entries 1 @ iteration_entries 2
          @ [Enter_compute_normalize_average_strategies, Enter_compute_normalize_average_cfvs]"
    unfolding run_entries_def n by (simp add: final_entries_def)
  from run_order[of toy_collab toy_settings "Some one_hand" "Some one_hand" toy_built s'
      "Some one_hand" s''] a b
  show ?thesis by (simp add: h r)
qed

text \<open>
  C7. In a re-solve with reconstruction (\<^verbatim>\<open>resolve\<close>, opponent CFVs supplied) the gadget
  is invoked exactly once in every iteration: right after \<^verbatim>\<open>_set_opponent_starting_range\<close>
  is entered and before that iteration's regret matching, with the slice
  \<^verbatim>\<open>layers[0].cfvs_data[:, :, :, :, 0, :]\<close> of the state in which the iteration starts and
  with the iteration index; the range it returns is written over
  \<^verbatim>\<open>layers[0].ranges_data[:, :, :, :, 1, :]\<close> before the ranges are propagated. In a
  root re-solve (\<^verbatim>\<open>resolve_first_node\<close> on an object without opponent CFVs) the gadget
  is never invoked.
\<close>

theorem gadget_called_once_per_iteration:
  "(set_opponent_starting_range cs iter t = Inr t' \<and> reconstruction_opponent_cfvs t \<noteq> None
      \<longrightarrow> (\<exists>l c g rng g' r. get_layer (layers t) 0 = Inr l
            \<and> getitem (cfvs_data l) (player_ix 0) = Inr c
            \<and> reconstruction_gadget t = Some g
            \<and> compute_opponent_range cs g c iter = Inr (rng, g')
            \<and> setitem (ranges_data l) (player_ix 1) rng = Inr r
            \<and> ranges_data (layers t' ! 0) = r
            \<and> reconstruction_gadget t' = Some g'
            \<and> history t' = history t @ [Enter_set_opponent_starting_range iter,
                                         Call_compute_opponent_range c iter]))
   \<and> (resolve cs st player_range opponent_cfvs s = Inr s'
      \<longrightarrow> (\<exists>pr oc s0 c. player_range = Some pr \<and> opponent_cfvs = Some oc
            \<and> resolve_start cs pr oc s = Inr s0
            \<and> (\<forall>i<nat (cfr_iters st). gadget_argument cs st s0 i = Inr (c i))
            \<and> history s' = history s
                 @ concat (map (\<lambda>i. iteration_events_with_call i (c i)) [0..<nat (cfr_iters st)])
                 @ final_entries))
   \<and> (resolve_first_node cs st player_range opponent_range s = Inr s''
        \<and> reconstruction_opponent_cfvs s = None
      \<longrightarrow> history s'' = history s @ run_entries st
          \<and> reconstruction_gadget s'' = reconstruction_gadget s)"
proof (intro conjI impI)
  assume a: "set_opponent_starting_range cs iter t = Inr t'
      \<and> reconstruction_opponent_cfvs t \<noteq> None"
  from set_opponent_starting_range_on[of cs iter t t'] a obtain l c g rng g' r where
    l: "get_layer (layers t) 0 = Inr l"
    and c: "getitem (cfvs_data l) (player_ix 0) = Inr c"
    and g: "reconstruction_gadget t = Some g"
    and rng: "compute_opponent_range cs g c iter = Inr (rng, g')"
    and r: "setitem (ranges_data l) (player_ix 1) rng = Inr r"
    and eq: "t' = t\<lparr>layers := (layers t)[0 := l\<lparr>ranges_data := r\<rparr>],
                reconstruction_gadget := Some g',
                history := history t @ [Enter_set_opponent_starting_range iter,
                                        Call_compute_opponent_range c iter]\<rparr>"
    by blast
  have "0 < length (layers t)" using l by (auto simp: get_layer_def split: if_splits)
  then have "ranges_data (layers t' ! 0) = r \<and> reconstruction_gadget t' = Some g'
      \<and> history t' = history t @ [Enter_set_opponent_starting_range iter,
                                   Call_compute_opponent_range c iter]"
    by (simp add: eq)
  then show "\<exists>l c g rng g' r. get_layer (layers t) 0 = Inr l
            \<and> getitem (cfvs_data l) (player_ix 0) = Inr c
            \<and> reconstruction_gadget t = Some g
            \<and> compute_opponent_range cs g c iter = Inr (rng, g')
            \<and> setitem (ranges_data l) (player_ix 1) rng = Inr r
            \<and> ranges_data (layers t' ! 0) = r
            \<and> reconstruction_gadget t' = Some g'
            \<and> history t' = history t @ [Enter_set_opponent_starting_range iter,
                                         Call_compute_opponent_range c iter]"
    using l c g rng r by blast
next
  assume r: "resolve cs st player_range opponent_cfvs s = Inr s'"
  then obtain pr oc where po: "player_range = Some pr" "opponent_cfvs = Some oc"
    by (rule resolve_args)
  with r obtain s0 where s0: "resolve_start cs pr oc s = Inr s0"
    and c: "compute cs st s0 = Inr s'"
    by (auto simp: resolve_via_start bind_err_Inr_iff)
  note st0 = resolve_start_state[OF s0]
  then have "reconstruction_opponent_cfvs s0 \<noteq> None" by simp
  with compute_history[OF c] obtain ca where
    "\<forall>i<nat (cfr_iters st). gadget_argument cs st s0 i = Inr (ca i)"
    "history s' = history s0
         @ concat (map (\<lambda>i. iteration_events_with_call i (ca i)) [0..<nat (cfr_iters st)])
         @ final_entries"
    by blast
  then show "\<exists>pr oc s0 c. player_range = Some pr \<and> opponent_cfvs = Some oc
            \<and> resolve_start cs pr oc s = Inr s0
            \<and> (\<forall>i<nat (cfr_iters st). gadget_argument cs st s0 i = Inr (c i))
            \<and> history s' = history s
                 @ concat (map (\<lambda>i. iteration_events_with_call i (c i)) [0..<nat (cfr_iters st)])
                 @ final_entries"
    using po s0 st0 by auto
next
  assume a: "resolve_first_node cs st player_range opponent_range s = Inr s''
        \<and> reconstruction_opponent_cfvs s = None"
  then obtain s0 where s0: "same_run s s0" and c: "compute cs st s0 = Inr s''"
    using resolve_first_node_start[of cs st player_range opponent_range s s''] by blast
  have "reconstruction_opponent_cfvs s0 = None" using s0 a by (simp add: same_run_def)
  with compute_history[OF c] s0
  show "history s'' = history s @ run_entries st"
    by (simp add: same_run_def)
next
  assume a: "resolve_first_node cs st player_range opponent_range s = Inr s''
        \<and> reconstruction_opponent_cfvs s = None"
  then obtain s0 where s0: "same_run s s0" and c: "compute cs st s0 = Inr s''"
    using resolve_first_node_start[of cs st player_range opponent_range s s''] by blast
  have "reconstruction_opponent_cfvs s0 = None" using s0 a by (simp add: same_run_def)
  with compute_history[OF c] s0
  show "reconstruction_gadget s'' = reconstruction_gadget s"
    by (simp add: same_run_def)
qed

theorem gadget_called_once_per_iteration_witness:
  "\<exists>s' s0 (c :: nat \<Rightarrow> npfloat ndarray) s'' t'. reconstruction_opponent_cfvs s0 \<noteq> None
     \<and> set_opponent_starting_range toy_collab 0 s0 = Inr t'
     \<and> (\<exists>l c g rng g' r. get_layer (layers s0) 0 = Inr l
            \<and> getitem (cfvs_data l) (player_ix 0) = Inr c
            \<and> reconstruction_gadget s0 = Some g
            \<and> compute_opponent_range toy_collab g c 0 = Inr (rng, g')
            \<and> setitem (ranges_data l) (player_ix 1) rng = Inr r
            \<and> ranges_data (layers t' ! 0) = r
            \<and> reconstruction_gadget t' = Some g'
            \<and> history t' = history s0 @ [Enter_set_opponent_starting_range 0,
                                         Call_compute_opponent_range c 0])
     \<and> resolve toy_collab toy_settings (Some one_hand) (Some one_hand) toy_built = Inr s'
     \<and> resolve_start toy_collab one_hand one_hand toy_built = Inr s0
     \<and> gadget_argument toy_collab toy_settings s0 0 = Inr (c 0)
     \<and> gadget_argument toy_collab toy_settings s0 1 = Inr (c 1)
     \<and> gadget_argument toy_collab toy_settings s0 2 = Inr (c 2)
     \<and> history s' = iteration_events_with_call 0 (c 0) @ iteration_events_with_call 1 (c 1)
          @ iteration_events_with_call 2 (c 2) @ final_entries
     \<and> reconstruction_opponent_cfvs toy_built = None
     \<and> resolve_first_node toy_collab toy_settings (Some one_hand) (Some one_hand) toy_built = Inr s''
     \<and> history s'' = run_entries toy_settings
     \<and> reconstruction_gadget s'' = None"
proof -
  from toy_root_resolve_succeeds obtain s'' where
    a: "resolve_first_node toy_collab toy_settings (Some one_hand) (Some one_hand) toy_built = Inr s''"
    by (rule succeedsE)
  from toy_resolve_succeeds obtain s' where
    b: "resolve toy_collab toy_settings (Some one_hand) (Some one_hand) toy_built = Inr s'"
    by (rule succeedsE)
  have h: "history toy_built = []" "reconstruction_opponent_cfvs toy_built = None"
    "reconstruction_gadget toy_built = None"
    by (simp_all add: toy_built_def)
  have n: "[0..<nat (cfr_iters toy_settings)] = [0, 1, 2]"
    by (simp add: toy_settings_def upt_rec)
  note t = gadget_called_once_per_iteration[of toy_collab _ _ _ toy_settings "Some one_hand"
      "Some one_hand" toy_built s' "Some one_hand" s'']
  from t b obtain s0 c where
    s0: "resolve_start toy_collab one_hand one_hand toy_built = Inr s0"
    and c: "\<forall>i<nat (cfr_iters toy_settings). gadget_argument toy_collab toy_settings s0 i = Inr (c i)"
    and hs: "history s' = history toy_built
         @ concat (map (\<lambda>i. iteration_events_with_call i (c i)) [0..<nat (cfr_iters toy_settings)])
         @ final_entries"
    by blast
  have "succeeds (bind_err (resolve_start toy_collab one_hand one_hand toy_built)
          (set_opponent_starting_range toy_collab 0))"
    by code_simp
  then obtain t' where t': "set_opponent_starting_range toy_collab 0 s0 = Inr t'"
    using s0 by (auto elim: succeedsE)
  have c3: "gadget_argument toy_collab toy_settings s0 0 = Inr (c 0)"
    "gadget_argument toy_collab toy_settings s0 1 = Inr (c 1)"
    "gadget_argument toy_collab toy_settings s0 2 = Inr (c 2)"
    using c by (simp_all add: toy_settings_def)
  have hs': "history s' = iteration_events_with_call 0 (c 0) @ iteration_events_with_call 1 (c 1)
          @ iteration_events_with_call 2 (c 2) @ final_entries"
    using hs unfolding n by (simp add: h)
  have f: "reconstruction_opponent_cfvs s0 \<noteq> None"
    using resolve_start_state[OF s0] by simp
  from t a h have r: "history s'' = run_entries toy_settings" "reconstruction_gadget s'' = None"
    by simp_all
  from gadget_called_once_per_iteration[of toy_collab 0 s0 t' toy_settings "Some one_hand"
      "Some one_hand" toy_built s' "Some one_hand" s''] t' f
  have p1: "\<exists>l c g rng g' r. get_layer (layers s0) 0 = Inr l
            \<and> getitem (cfvs_data l) (player_ix 0) = Inr c
            \<and> reconstruction_gadget s0 = Some g
            \<and> compute_opponent_range toy_collab g c 0 = Inr (rng, g')
            \<and> setitem (ranges_data l) (player_ix 1) rng = Inr r
            \<and> ranges_data (layers t' ! 0) = r
            \<and> reconstruction_gadget t' = Some g'
            \<and> history t' = history s0 @ [Enter_set_opponent_starting_range 0,
                                         Call_compute_opponent_range c 0]"
    by blast
  show ?thesis
    apply (rule exI[of _ s'], rule exI[of _ s0], rule exI[of _ c], rule exI[of _ s''])
    apply (rule exI[of _ t'])
    apply (intro conjI)
    apply (rule f t' p1 b s0 c3 hs' h(2) a r)+
    done
qed



end
